theory Spec2Isabelle
  imports Main "HOL-Library.Word"
begin


section \<open>Errors and the operating system\<close>

text \<open>
  Go strings and byte slices are sequences of bytes: \<open>string\<close>, whose characters are
  8-bit. A Go \<open>error\<close> is a value; the sentinels the program compares against are
  constructors of their own, every other error carries its message (\<open>SyntaxError\<close> is
  \<open>*xml.SyntaxError\<close>, without its line number). \<open>Panic\<close> is a run-time panic.
  \<open>Unmodelled\<close> is not an error of the program: the model answers with it on input whose
  treatment by the library it does not describe.
\<close>

type_synonym bytes = string

datatype error =
    io_EOF | ErrTooLarge | ErrShortWrite | ErrClosed
  | SyntaxError string | Err string | Panic string | Unmodelled string

text \<open>
  The temporary file behind \<open>*os.File\<close>: its content, the cursor of the handle, and
  whether the handle was closed and the name removed.
\<close>

record os_File =
  f_name :: string
  f_data :: bytes
  f_off :: nat
  f_closed :: bool
  f_removed :: bool

text \<open>
  How the operating system answers the calls made during one operation of the writer.
  \<open>Write_r = None\<close>: the write stores everything; \<open>Some (m, e)\<close>: it stores at most
  \<open>m\<close> bytes and returns \<open>e\<close>. \<open>Read_r\<close> likewise for reading to end of file.
\<close>

record os_resp =
  TempFile_r :: "error + string"
  Write_r :: "(nat \<times> error) option"
  Stat_r :: "error option"
  Seek_r :: "error option"
  Read_r :: "(nat \<times> error) option"
  Close_r :: "error option"
  Remove_r :: "error option"

definition os_ok :: os_resp where
  "os_ok = \<lparr>TempFile_r = Inr ''excelize-1'', Write_r = None, Stat_r = None, Seek_r = None,
            Read_r = None, Close_r = None, Remove_r = None\<rparr>"

definition new_File :: "string \<Rightarrow> os_File" where
  "new_File nm = \<lparr>f_name = nm, f_data = [], f_off = 0, f_closed = False, f_removed = False\<rparr>"

text \<open>\<open>(*os.File).Write\<close>: stores \<open>p\<close> at the cursor and advances it.\<close>

definition store_at :: "nat \<Rightarrow> bytes \<Rightarrow> bytes \<Rightarrow> bytes" where
  "store_at off p d =
     take off (d @ replicate (off - length d) (CHR 0x00)) @ p @ drop (off + length p) d"

definition File_Write :: "os_resp \<Rightarrow> bytes \<Rightarrow> os_File \<Rightarrow> (nat \<times> error option) \<times> os_File" where
  "File_Write R p f =
     (if f_closed f then ((0, Some ErrClosed), f)
      else case Write_r R of
        None \<Rightarrow> ((length p, None),
                 f\<lparr>f_data := store_at (f_off f) p (f_data f), f_off := f_off f + length p\<rparr>)
      | Some (m, e) \<Rightarrow>
          (let q = take m p
           in ((length q, Some e),
               f\<lparr>f_data := store_at (f_off f) q (f_data f), f_off := f_off f + length q\<rparr>)))"

definition File_Stat :: "os_resp \<Rightarrow> os_File \<Rightarrow> error option" where
  "File_Stat R f = (if f_closed f then Some ErrClosed else Stat_r R)"

definition File_Seek :: "os_resp \<Rightarrow> os_File \<Rightarrow> error option" where
  "File_Seek R f = (if f_closed f then Some ErrClosed else Seek_r R)"

text \<open>\<open>(*bytes.Buffer).ReadFrom\<close> on the file: reads from the cursor to end of file.\<close>

definition File_ReadAll :: "os_resp \<Rightarrow> os_File \<Rightarrow> (bytes \<times> error option) \<times> os_File" where
  "File_ReadAll R f =
     (if f_closed f then (([], Some ErrClosed), f)
      else case Read_r R of
        None \<Rightarrow> ((drop (f_off f) (f_data f), None), f\<lparr>f_off := max (f_off f) (length (f_data f))\<rparr>)
      | Some (m, e) \<Rightarrow>
          (let q = take m (drop (f_off f) (f_data f))
           in ((q, Some e), f\<lparr>f_off := f_off f + length q\<rparr>)))"

section \<open>The elastic buffer: bufferedWriter\<close>

text \<open>
  \<open>buf\<close> is the unread content of the \<open>bytes.Buffer\<close>; \<open>tmp\<close> is \<open>None\<close> for a nil
  \<open>*os.File\<close>. The model keeps contents only: it does not track the capacity of the
  buffer's array, nor which slices share it.
\<close>

record bufferedWriter =
  tmp :: "os_File option"
  buf :: bytes

definition bw_zero :: bufferedWriter where
  "bw_zero = \<lparr>tmp = None, buf = []\<rparr>"

definition bw_WriteString :: "bytes \<Rightarrow> bufferedWriter \<Rightarrow> bufferedWriter" where
  "bw_WriteString p bw = bw\<lparr>buf := buf bw @ p\<rparr>"

text \<open>\<open>const chunk = 1 << 24\<close> in \<open>Sync\<close>.\<close>

definition chunk :: nat where
  "chunk = 2 ^ 24"

text \<open>
  \<open>(*bytes.Buffer).WriteTo\<close>: one \<open>Write\<close> of the whole unread content when there is
  any; the bytes the writer took are consumed even when it fails.
\<close>

definition Buffer_WriteTo :: "os_resp \<Rightarrow> bytes \<Rightarrow> os_File \<Rightarrow> error option \<times> bytes \<times> os_File" where
  "Buffer_WriteTo R b f =
     (if b = [] then (None, [], f)
      else case File_Write R b f of
        ((m, Some e), f') \<Rightarrow> (Some e, drop m b, f')
      | ((m, None), f') \<Rightarrow>
          (if m \<noteq> length b then (Some ErrShortWrite, drop m b, f') else (None, [], f')))"

definition bw_Flush :: "os_resp \<Rightarrow> bufferedWriter \<Rightarrow> error option \<times> bufferedWriter" where
  "bw_Flush R bw =
     (case tmp bw of
        None \<Rightarrow> (None, bw)
      | Some f \<Rightarrow>
          (case Buffer_WriteTo R (buf bw) f of
             (Some e, b', f') \<Rightarrow> (Some e, bw\<lparr>tmp := Some f', buf := b'\<rparr>)
           | (None, b', f') \<Rightarrow> (None, bw\<lparr>tmp := Some f', buf := []\<rparr>)))"

definition bw_Sync :: "os_resp \<Rightarrow> bufferedWriter \<Rightarrow> error option \<times> bufferedWriter" where
  "bw_Sync R bw =
     (if length (buf bw) < chunk then (None, bw)
      else case tmp bw of
        None \<Rightarrow>
          (case TempFile_r R of
             Inl e \<Rightarrow> (None, bw\<lparr>tmp := None\<rparr>)
           | Inr nm \<Rightarrow> bw_Flush R (bw\<lparr>tmp := Some (new_File nm)\<rparr>))
      | Some f \<Rightarrow> bw_Flush R bw)"

text \<open>
  \<open>Bytes\<close>. \<open>bytes.MinRead\<close> is 512; \<open>int\<close> is taken 64 bits wide, so
  \<open>int64(int(size)) == size\<close> compares \<open>size\<close> with its 64-bit two's complement reading.
  \<open>Grow\<close> changes the capacity only.
\<close>

definition MinRead :: int where
  "MinRead = 512"

definition bw_Bytes :: "os_resp \<Rightarrow> bufferedWriter \<Rightarrow> (bytes \<times> error option) \<times> bufferedWriter" where
  "bw_Bytes R bw =
     (case tmp bw of
        None \<Rightarrow> ((buf bw, None), bw)
      | Some f0 \<Rightarrow>
          (case bw_Flush R bw of
             (Some e, bw1) \<Rightarrow> (([], Some e), bw1)
           | (None, bw1) \<Rightarrow>
               (case tmp bw1 of
                  None \<Rightarrow> ((buf bw1, None), bw1)
                | Some f \<Rightarrow>
                    (let size = int (length (f_data f)) + MinRead in
                     if File_Stat R f = None \<and> size > MinRead \<and> sint (word_of_int size :: 64 word) \<noteq> size
                     then (([], Some ErrTooLarge), bw1)
                     else case File_Seek R f of
                       Some e \<Rightarrow> (([], Some e), bw1)
                     | None \<Rightarrow>
                         (case File_ReadAll R (f\<lparr>f_off := 0\<rparr>) of
                            (res, f') \<Rightarrow> (res, bw1\<lparr>tmp := Some f'\<rparr>))))))"

text \<open>
  \<open>Close\<close>: the deferred \<open>os.Remove\<close> runs after \<open>tmp.Close()\<close>, and its error is
  dropped.
\<close>

definition bw_Close :: "os_resp \<Rightarrow> bufferedWriter \<Rightarrow> error option \<times> bufferedWriter" where
  "bw_Close R bw =
     (case tmp bw of
        None \<Rightarrow> (None, bw\<lparr>buf := []\<rparr>)
      | Some f \<Rightarrow>
          (if f_closed f then Some ErrClosed else Close_r R,
           bw\<lparr>buf := [],
              tmp := Some (f\<lparr>f_closed := True,
                              f_removed := (f_removed f \<or> Remove_r R = None)\<rparr>)\<rparr>))"

text \<open>
  \<open>Reader\<close>. An \<open>io.Reader\<close> is modelled by what it will yield: the bytes, and the error
  that ends them (\<open>io_EOF\<close> when the source is read to its end). The reader over the file
  is a section reader on the whole of it; \<open>ReadAt\<close> leaves the cursor alone.
\<close>

type_synonym reader = "bytes \<times> error"

definition File_SectionReader :: "os_resp \<Rightarrow> os_File \<Rightarrow> reader" where
  "File_SectionReader R f =
     (if f_closed f then ([], ErrClosed)
      else case Read_r R of
        None \<Rightarrow> (f_data f, io_EOF)
      | Some (m, e) \<Rightarrow> (take m (f_data f), e))"

definition bw_Reader :: "os_resp \<Rightarrow> bufferedWriter \<Rightarrow> (error + reader) \<times> bufferedWriter" where
  "bw_Reader R bw =
     (case tmp bw of
        None \<Rightarrow> (Inr (buf bw, io_EOF), bw)
      | Some f0 \<Rightarrow>
          (case bw_Flush R bw of
             (Some e, bw1) \<Rightarrow> (Inl e, bw1)
           | (None, bw1) \<Rightarrow>
               (case tmp bw1 of
                  None \<Rightarrow> (Inr (buf bw1, io_EOF), bw1)
                | Some f \<Rightarrow>
                    (case File_Stat R f of
                       Some e \<Rightarrow> (Inl e, bw1)
                     | None \<Rightarrow> (Inr (File_SectionReader R f), bw1)))))"

section \<open>Machine integers\<close>

text \<open>
  Go's \<open>int\<close>, taken 64 bits wide: \<open>int_wrap\<close> is the value an arithmetic result has
  after two's complement wrap-around.
\<close>

definition int_wrap :: "int \<Rightarrow> int" where
  "int_wrap x = (x + 2 ^ 63) mod 2 ^ 64 - 2 ^ 63"

section \<open>Standard library: decimal formatting, UTF-8, XML escaping\<close>

text \<open>\<open>strconv.Itoa\<close> and the verb \<open>%d\<close>.\<close>

definition digit_char :: "nat \<Rightarrow> char" where
  "digit_char d = ''0123456789'' ! d"

fun nat_dec :: "nat \<Rightarrow> string" where
  "nat_dec n = (if n < 10 then [digit_char n] else nat_dec (n div 10) @ [digit_char (n mod 10)])"

declare nat_dec.simps [simp del]

definition Itoa :: "int \<Rightarrow> string" where
  "Itoa i = (if i < 0 then CHR ''-'' # nat_dec (nat (- i)) else nat_dec (nat i))"

text \<open>
  \<open>utf8.DecodeRune\<close>: the rune at the head of the bytes and its width; an ill-formed
  head is \<open>(RuneError, 1)\<close>, the empty input \<open>(RuneError, 0)\<close>.
\<close>

definition RuneError :: nat where
  "RuneError = 0xFFFD"

definition byte_in :: "nat \<Rightarrow> nat \<Rightarrow> char \<Rightarrow> bool" where
  "byte_in lo hi c = (lo \<le> (of_char c :: nat) \<and> (of_char c :: nat) \<le> hi)"

definition low6 :: "char \<Rightarrow> nat" where
  "low6 c = (of_char c :: nat) mod 64"

fun DecodeRune :: "bytes \<Rightarrow> nat \<times> nat" where
  "DecodeRune [] = (RuneError, 0)"
| "DecodeRune (c # cs) =
     (let b0 = (of_char c :: nat) in
      if b0 < 0x80 then (b0, 1)
      else if 0xC2 \<le> b0 \<and> b0 \<le> 0xDF then
        (case cs of
           c1 # _ \<Rightarrow> if byte_in 0x80 0xBF c1 then ((b0 mod 32) * 64 + low6 c1, 2) else (RuneError, 1)
         | _ \<Rightarrow> (RuneError, 1))
      else if 0xE0 \<le> b0 \<and> b0 \<le> 0xEF then
        (case cs of
           c1 # c2 # _ \<Rightarrow>
             if byte_in (if b0 = 0xE0 then 0xA0 else 0x80) (if b0 = 0xED then 0x9F else 0xBF) c1
                \<and> byte_in 0x80 0xBF c2
             then ((b0 mod 16) * 4096 + low6 c1 * 64 + low6 c2, 3) else (RuneError, 1)
         | _ \<Rightarrow> (RuneError, 1))
      else if 0xF0 \<le> b0 \<and> b0 \<le> 0xF4 then
        (case cs of
           c1 # c2 # c3 # _ \<Rightarrow>
             if byte_in (if b0 = 0xF0 then 0x90 else 0x80) (if b0 = 0xF4 then 0x8F else 0xBF) c1
                \<and> byte_in 0x80 0xBF c2 \<and> byte_in 0x80 0xBF c3
             then ((b0 mod 8) * 262144 + low6 c1 * 4096 + low6 c2 * 64 + low6 c3, 4)
             else (RuneError, 1)
         | _ \<Rightarrow> (RuneError, 1))
      else (RuneError, 1))"

text \<open>\<open>isInCharacterRange\<close> of encoding/xml: the characters XML 1.0 allows.\<close>

definition isInCharacterRange :: "nat \<Rightarrow> bool" where
  "isInCharacterRange r =
     (r = 0x09 \<or> r = 0x0A \<or> r = 0x0D \<or> (0x20 \<le> r \<and> r \<le> 0xD7FF)
      \<or> (0xE000 \<le> r \<and> r \<le> 0xFFFD) \<or> (0x10000 \<le> r \<and> r \<le> 0x10FFFF))"

text \<open>
  \<open>xml.EscapeText\<close>, rune by rune: the escape of the rune, or its bytes unchanged. A
  rune outside the character range and an ill-formed byte are written as U+FFFD.
\<close>

definition escFFFD :: bytes where
  "escFFFD = [CHR 0xEF, CHR 0xBF, CHR 0xBD]"

definition escRune :: "nat \<Rightarrow> nat \<Rightarrow> bytes \<Rightarrow> bytes" where
  "escRune r width raw =
     (if r = 0x22 then ''&#34;''
      else if r = 0x27 then ''&#39;''
      else if r = 0x26 then ''&amp;''
      else if r = 0x3C then ''&lt;''
      else if r = 0x3E then ''&gt;''
      else if r = 0x09 then ''&#x9;''
      else if r = 0x0A then ''&#xA;''
      else if r = 0x0D then ''&#xD;''
      else if \<not> isInCharacterRange r \<or> (r = 0xFFFD \<and> width = 1) then escFFFD
      else raw)"

lemma DecodeRune_width: "s \<noteq> [] \<Longrightarrow> 1 \<le> snd (DecodeRune s) \<and> snd (DecodeRune s) \<le> length s"
  by (cases s) (auto simp: Let_def split: list.splits)

function EscapeText :: "bytes \<Rightarrow> bytes" where
  "EscapeText [] = []"
| "EscapeText (c # cs) =
     (case DecodeRune (c # cs) of
        (r, width) \<Rightarrow> escRune r width (take width (c # cs)) @ EscapeText (drop width (c # cs)))"
  by pat_completeness auto
termination
proof (relation "measure length")
  show "wf (measure length)" by simp
next
  fix c :: char and cs :: bytes and r width
  assume "(r, width) = DecodeRune (c # cs)"
  then have w: "width = snd (DecodeRune (c # cs))" by (metis snd_conv)
  have "1 \<le> width" unfolding w using DecodeRune_width [of "c # cs"] by blast
  then show "(drop width (c # cs), c # cs) \<in> measure length" by auto
qed

declare EscapeText.simps [simp del]

section \<open>Cell values and the cell encoder\<close>

record xml_Name =
  n_Space :: string
  n_Local :: string

record xml_Attr =
  a_Name :: xml_Name
  a_Value :: string

text \<open>The fields of \<open>xlsxC\<close> that the stream writer sets and reads.\<close>

record xlsxC =
  c_XMLSpace :: xml_Attr
  c_R :: string
  c_S :: int
  c_T :: string
  c_V :: string

definition xlsxC_zero :: xlsxC where
  "xlsxC_zero = \<lparr>c_XMLSpace = \<lparr>a_Name = \<lparr>n_Space = [], n_Local = []\<rparr>, a_Value = []\<rparr>,
                  c_R = [], c_S = 0, c_T = [], c_V = []\<rparr>"

record go_Time =
  t_unix :: int
  t_utc :: bool

text \<open>
  The dynamic type of an \<open>interface{}\<close> value in a row. Sized integers are words; a
  float is its IEEE bit pattern (no floating-point arithmetic is modelled); \<open>VCell\<close> is a
  \<open>Cell\<close> struct (style, value), \<open>VCellPtr\<close> a \<open>*Cell\<close>, \<open>None\<close> when nil; \<open>VOther\<close>
  stands for a value of any type the type switches do not name.
\<close>

datatype val =
    VInt "64 word" | VInt8 "8 word" | VInt16 "16 word" | VInt32 "32 word" | VInt64 "64 word"
  | VUint "64 word" | VUint8 "8 word" | VUint16 "16 word" | VUint32 "32 word" | VUint64 "64 word"
  | VFloat32 "32 word" | VFloat64 "64 word"
  | VString string | VBytes bytes
  | VDuration "64 word" | VTime go_Time | VBool bool | VNil
  | VCell int val | VCellPtr "(int \<times> val) option"
  | VOther string

text \<open>
  Functions of the package that are defined outside the two source files, and the two
  library functions on values that are not modelled (\<open>float64(v)\<close> on a \<open>float32\<close>,
  \<open>fmt.Sprint\<close>). Theorems hold for every choice of them unless a hypothesis says
  otherwise.
\<close>

record encoders =
  CellNameToCoordinates :: "string \<Rightarrow> error + int \<times> int"
  CoordinatesToCellName :: "int \<Rightarrow> int \<Rightarrow> error + string"
  setCellInt :: "int \<Rightarrow> string \<times> string"
  setCellFloat :: "64 word \<Rightarrow> int \<Rightarrow> int \<Rightarrow> string \<times> string"
  setCellStr :: "string \<Rightarrow> string \<times> string \<times> xml_Attr"
  setCellDuration :: "64 word \<Rightarrow> string \<times> string"
  setCellTime :: "go_Time \<Rightarrow> (string \<times> string \<times> bool) \<times> error option"
  setCellBool :: "bool \<Rightarrow> string \<times> string"
  float64_of_float32 :: "32 word \<Rightarrow> 64 word"
  fmt_Sprint :: "val \<Rightarrow> string"

definition set_TV :: "xlsxC \<Rightarrow> string \<times> string \<Rightarrow> xlsxC" where
  "set_TV c tv = c\<lparr>c_T := fst tv, c_V := snd tv\<rparr>"

definition set_TVX :: "xlsxC \<Rightarrow> string \<times> string \<times> xml_Attr \<Rightarrow> xlsxC" where
  "set_TVX c tvx = c\<lparr>c_T := fst tvx, c_V := fst (snd tvx), c_XMLSpace := snd (snd tvx)\<rparr>"

text \<open>\<open>setCellIntFunc\<close>: \<open>int(val)\<close> for each integer type, \<open>int\<close> being 64 bits wide.\<close>

fun setCellIntFunc :: "encoders \<Rightarrow> xlsxC \<Rightarrow> val \<Rightarrow> error option \<times> xlsxC" where
  "setCellIntFunc X c (VInt v) = (None, set_TV c (setCellInt X (sint v)))"
| "setCellIntFunc X c (VInt8 v) = (None, set_TV c (setCellInt X (sint v)))"
| "setCellIntFunc X c (VInt16 v) = (None, set_TV c (setCellInt X (sint v)))"
| "setCellIntFunc X c (VInt32 v) = (None, set_TV c (setCellInt X (sint v)))"
| "setCellIntFunc X c (VInt64 v) = (None, set_TV c (setCellInt X (sint v)))"
| "setCellIntFunc X c (VUint v) = (None, set_TV c (setCellInt X (sint v)))"
| "setCellIntFunc X c (VUint8 v) = (None, set_TV c (setCellInt X (uint v)))"
| "setCellIntFunc X c (VUint16 v) = (None, set_TV c (setCellInt X (uint v)))"
| "setCellIntFunc X c (VUint32 v) = (None, set_TV c (setCellInt X (uint v)))"
| "setCellIntFunc X c (VUint64 v) = (None, set_TV c (setCellInt X (sint v)))"
| "setCellIntFunc X c _ = (None, c)"

definition is_int_val :: "val \<Rightarrow> bool" where
  "is_int_val v =
     (case v of VInt _ \<Rightarrow> True | VInt8 _ \<Rightarrow> True | VInt16 _ \<Rightarrow> True | VInt32 _ \<Rightarrow> True
      | VInt64 _ \<Rightarrow> True | VUint _ \<Rightarrow> True | VUint8 _ \<Rightarrow> True | VUint16 _ \<Rightarrow> True
      | VUint32 _ \<Rightarrow> True | VUint64 _ \<Rightarrow> True | _ \<Rightarrow> False)"

text \<open>\<open>setCellValFunc\<close>: the type switch, in the order of the source.\<close>

definition setCellValFunc :: "encoders \<Rightarrow> xlsxC \<Rightarrow> val \<Rightarrow> error option \<times> xlsxC" where
  "setCellValFunc X c v =
     (if is_int_val v then setCellIntFunc X c v
      else case v of
        VFloat32 f \<Rightarrow> (None, set_TV c (setCellFloat X (float64_of_float32 X f) (- 1) 32))
      | VFloat64 f \<Rightarrow> (None, set_TV c (setCellFloat X f (- 1) 64))
      | VString x \<Rightarrow> (None, set_TVX c (setCellStr X x))
      | VBytes x \<Rightarrow> (None, set_TVX c (setCellStr X x))
      | VDuration d \<Rightarrow> (None, set_TV c (setCellDuration X d))
      | VTime t \<Rightarrow>
          (case setCellTime X t of
             ((ty, x, isNum), err) \<Rightarrow> (err, set_TV c (ty, x)))
      | VBool b \<Rightarrow> (None, set_TV c (setCellBool X b))
      | VNil \<Rightarrow> (None, set_TVX c (setCellStr X []))
      | _ \<Rightarrow> (None, set_TVX c (setCellStr X (fmt_Sprint X v))))"

section \<open>The stream writer\<close>

text \<open>
  \<open>xlsxWorksheet\<close> is declared outside the two source files; \<open>bulkAppendFields\<close> only
  encodes its fields in order, so a worksheet is the list of its fields' encodings (the
  empty string for a nil field, for which the encoder writes nothing).
\<close>

type_synonym xlsxWorksheet = "bytes list"

text \<open>
  The parts of \<open>File\<close> the stream writer touches: the three maps keyed by path, the map
  from sheet names to paths, and \<open>pkg\<close>, the rest of the package (relationships, content
  types), which only functions outside the two source files read and change.
\<close>

record 'p File =
  XLSX :: "string \<rightharpoonup> bytes"
  Sheet :: "string \<rightharpoonup> xlsxWorksheet"
  checked :: "string \<rightharpoonup> bool"
  sheetMap :: "string \<rightharpoonup> string"
  pkg :: 'p

record 'p StreamWriter =
  sw_File :: "'p File"
  sw_Sheet :: string
  SheetID :: int
  worksheet :: xlsxWorksheet
  rawData :: bufferedWriter
  tableParts :: string

definition bulkAppendFields :: "bufferedWriter \<Rightarrow> xlsxWorksheet \<Rightarrow> nat \<Rightarrow> nat \<Rightarrow> bufferedWriter" where
  "bulkAppendFields w ws from to =
     fold (\<lambda>i b. if from \<le> i \<and> i \<le> to then bw_WriteString (ws ! i) b else b) [0..<length ws] w"

section \<open>Writing cells and rows\<close>

definition writeCell :: "bufferedWriter \<Rightarrow> xlsxC \<Rightarrow> bufferedWriter" where
  "writeCell bw c =
     (let b1 = bw_WriteString ''<c'' bw;
          b2 = (if a_Value (c_XMLSpace c) \<noteq> []
                then bw_WriteString ('' xml:'' @ n_Local (a_Name (c_XMLSpace c)) @ ''=\"''
                                      @ a_Value (c_XMLSpace c) @ ''\"'') b1
                else b1);
          b3 = bw_WriteString ('' r=\"'' @ c_R c @ ''\"'') b2;
          b4 = (if c_S c \<noteq> 0 then bw_WriteString ('' s=\"'' @ Itoa (c_S c) @ ''\"'') b3 else b3);
          b5 = (if c_T c \<noteq> [] then bw_WriteString ('' t=\"'' @ c_T c @ ''\"'') b4 else b4);
          b6 = bw_WriteString ''>'' b5;
          b7 = (if c_V c \<noteq> []
                then bw_WriteString ''</v>'' (bw_WriteString (EscapeText (c_V c))
                       (bw_WriteString ''<v>'' b6))
                else b6)
      in bw_WriteString ''</c>'' b7)"

text \<open>
  The body of the loop of \<open>SetRow\<close> after the cell name is computed: the cell
  \<open>xlsxC{R: axis}\<close>, the style and value of a \<open>Cell\<close> or a non-nil \<open>*Cell\<close> unwrapped,
  then \<open>setCellValFunc\<close>.
\<close>

definition unwrapCell :: "xlsxC \<Rightarrow> val \<Rightarrow> xlsxC \<times> val" where
  "unwrapCell c v =
     (case v of
        VCell sid x \<Rightarrow> (c\<lparr>c_S := sid\<rparr>, x)
      | VCellPtr (Some (sid, x)) \<Rightarrow> (c\<lparr>c_S := sid\<rparr>, x)
      | _ \<Rightarrow> (c, v))"

definition encodeCell :: "encoders \<Rightarrow> string \<Rightarrow> val \<Rightarrow> error option \<times> xlsxC" where
  "encodeCell X axis v =
     (case unwrapCell (xlsxC_zero\<lparr>c_R := axis\<rparr>) v of (c, x) \<Rightarrow> setCellValFunc X c x)"

text \<open>
  The loop of \<open>SetRow\<close> from index \<open>i\<close>: \<open>Some e\<close> when the function returns \<open>e\<close> from
  inside the loop, \<open>None\<close> when the loop runs to its end.
\<close>

fun SetRow_loop :: "encoders \<Rightarrow> int \<Rightarrow> int \<Rightarrow> int \<Rightarrow> val list \<Rightarrow> bufferedWriter
                      \<Rightarrow> error option \<times> bufferedWriter" where
  "SetRow_loop X col row i [] bw = (None, bw)"
| "SetRow_loop X col row i (v # vs) bw =
     (case CoordinatesToCellName X (col + i) row of
        Inl e \<Rightarrow> (Some e, bw)
      | Inr axis \<Rightarrow>
          (case encodeCell X axis v of
             (Some e, c) \<Rightarrow> (Some e, bw_WriteString ''</row>'' bw)
           | (None, c) \<Rightarrow> SetRow_loop X col row (i + 1) vs (writeCell bw c)))"

definition SetRow :: "encoders \<Rightarrow> os_resp \<Rightarrow> string \<Rightarrow> val list \<Rightarrow> 'p StreamWriter
                        \<Rightarrow> error option \<times> 'p StreamWriter" where
  "SetRow X R axis values sw =
     (case CellNameToCoordinates X axis of
        Inl e \<Rightarrow> (Some e, sw)
      | Inr (col, row) \<Rightarrow>
          (case SetRow_loop X col row 0 values
                  (bw_WriteString (''<row r=\"'' @ Itoa row @ ''\">'') (rawData sw)) of
             (Some e, bw) \<Rightarrow> (Some e, sw\<lparr>rawData := bw\<rparr>)
           | (None, bw) \<Rightarrow>
               (case bw_Sync R (bw_WriteString ''</row>'' bw) of
                  (err, bw') \<Rightarrow> (err, sw\<lparr>rawData := bw'\<rparr>))))"

section \<open>Finalizing\<close>

text \<open>\<open>fmt.Sprintf("xl/worksheets/sheet%d.xml", sw.SheetID)\<close>.\<close>

definition sheetXML_of :: "int \<Rightarrow> string" where
  "sheetXML_of sid = ''xl/worksheets/sheet'' @ Itoa sid @ ''.xml''"

text \<open>
  \<open>StreamWriter.Flush\<close>. The return after \<open>rawData.Flush\<close> comes before
  \<open>defer sw.rawData.Close()\<close>, so \<open>Close\<close> runs on the two later exits only.
\<close>

definition sw_Flush :: "os_resp \<Rightarrow> 'p StreamWriter \<Rightarrow> error option \<times> 'p StreamWriter" where
  "sw_Flush R sw =
     (let b1 = bw_WriteString ''</sheetData>'' (rawData sw);
          b2 = bulkAppendFields b1 (worksheet sw) 7 37;
          b3 = bw_WriteString (tableParts sw) b2;
          b4 = bulkAppendFields b3 (worksheet sw) 39 39;
          b5 = bw_WriteString ''</worksheet>'' b4
      in case bw_Flush R b5 of
        (Some e, b6) \<Rightarrow> (Some e, sw\<lparr>rawData := b6\<rparr>)
      | (None, b6) \<Rightarrow>
          (let sheetXML = sheetXML_of (SheetID sw);
               f1 = (sw_File sw)\<lparr>Sheet := (Sheet (sw_File sw))(sheetXML := None),
                                 checked := (checked (sw_File sw))(sheetXML := None)\<rparr>
           in case bw_Bytes R b6 of
             ((b, Some e), b7) \<Rightarrow> (Some e, sw\<lparr>sw_File := f1, rawData := snd (bw_Close R b7)\<rparr>)
           | ((b, None), b7) \<Rightarrow>
               (None, sw\<lparr>sw_File := f1\<lparr>XLSX := (XLSX f1)(sheetXML \<mapsto> b)\<rparr>,
                          rawData := snd (bw_Close R b7)\<rparr>)))"


section \<open>Standard library: the XML decoder\<close>

text \<open>
  \<open>encoding/xml\<close>'s \<open>Decoder\<close> in strict mode, as \<open>xmlNewDecoder\<close> creates it (no entity
  map of its own). The model covers elements with attributes, end tags, character data
  with character and predefined entity references, and processing instructions. It answers
  \<open>Unmodelled\<close> on markup declarations (\<open><!\<close>: comments, CDATA sections, directives), on
  names with bytes outside ASCII or with a colon elsewhere than once strictly inside, on an
  \<open>xml\<close> declaration naming an encoding other than UTF-8, and where an end tag and its start
  tag have equal local names and different prefixes (prefixes are not translated to
  namespace names).
\<close>

datatype token =
    StartElement xml_Name "xml_Attr list"
  | EndElement xml_Name
  | CharData bytes
  | ProcInst string bytes

text \<open>\<open>mustgetc\<close> at the end of the input: \<open>unexpected EOF\<close>, or the reader's error.\<close>

definition eof_error :: "error \<Rightarrow> error" where
  "eof_error rd = (if rd = io_EOF then SyntaxError ''unexpected EOF'' else rd)"

definition isNameByte :: "char \<Rightarrow> bool" where
  "isNameByte c =
     (byte_in 0x41 0x5A c \<or> byte_in 0x61 0x7A c \<or> byte_in 0x30 0x39 c
      \<or> c = CHR ''_'' \<or> c = CHR '':'' \<or> c = CHR ''.'' \<or> c = CHR ''-'')"

text \<open>\<open>readName\<close> takes every byte that is not a single-byte character outside names.\<close>

definition name_byte :: "char \<Rightarrow> bool" where
  "name_byte c = (\<not> (of_char c :: nat) < 0x80 \<or> isNameByte c)"

text \<open>\<open>isName\<close> on ASCII: the tables \<open>first\<close> and \<open>second\<close> below U+0080.\<close>

definition name_first :: "char \<Rightarrow> bool" where
  "name_first c =
     (c = CHR '':'' \<or> byte_in 0x41 0x5A c \<or> c = CHR ''_'' \<or> byte_in 0x61 0x7A c)"

definition name_second :: "char \<Rightarrow> bool" where
  "name_second c = (c = CHR ''-'' \<or> c = CHR ''.'' \<or> byte_in 0x30 0x39 c)"

definition isName :: "bytes \<Rightarrow> bool" where
  "isName s =
     (case s of
        [] \<Rightarrow> False
      | c # cs \<Rightarrow> name_first c \<and> list_all (\<lambda>x. name_first x \<or> name_second x) cs)"

text \<open>
  \<open>(*Decoder).name\<close>: the error, or no name at the head of the input (nothing is
  consumed), or the name and the input after it.
\<close>

definition read_name :: "error \<Rightarrow> bytes \<Rightarrow> error + (string option \<times> bytes)" where
  "read_name rd inp =
     (case inp of
        [] \<Rightarrow> Inl (eof_error rd)
      | b # _ \<Rightarrow>
          if \<not> name_byte b then Inr (None, inp)
          else (let s = takeWhile name_byte inp; rest = dropWhile name_byte inp
                in if rest = [] then Inl (eof_error rd)
                   else if \<not> list_all (\<lambda>c. (of_char c :: nat) < 0x80) s
                   then Inl (Unmodelled ''name outside ASCII'')
                   else if \<not> isName s then Inl (SyntaxError ''invalid XML name'')
                   else Inr (Some s, rest)))"

text \<open>\<open>nsname\<close>: the name split at its colon.\<close>

definition split_name :: "string \<Rightarrow> xml_Name option" where
  "split_name s =
     (let pre = takeWhile (\<lambda>c. c \<noteq> CHR '':'') s; post = dropWhile (\<lambda>c. c \<noteq> CHR '':'') s
      in if post = [] then Some \<lparr>n_Space = [], n_Local = s\<rparr>
         else if pre \<noteq> [] \<and> tl post \<noteq> [] \<and> CHR '':'' \<notin> set (tl post)
         then Some \<lparr>n_Space = pre, n_Local = tl post\<rparr>
         else None)"

definition nsname :: "error \<Rightarrow> bytes \<Rightarrow> error + (xml_Name option \<times> bytes)" where
  "nsname rd inp =
     (case read_name rd inp of
        Inl e \<Rightarrow> Inl e
      | Inr (None, rest) \<Rightarrow> Inr (None, rest)
      | Inr (Some s, rest) \<Rightarrow>
          (case split_name s of
             None \<Rightarrow> Inl (Unmodelled ''colons in a name'')
           | Some nm \<Rightarrow> Inr (Some nm, rest)))"

definition is_space :: "char \<Rightarrow> bool" where
  "is_space c = (c = CHR '' '' \<or> c = CHR 0x0D \<or> c = CHR 0x0A \<or> c = CHR 0x09)"

text \<open>\<open>string(rune(n))\<close>: the UTF-8 encoding, U+FFFD for a surrogate.\<close>

definition EncodeRune :: "nat \<Rightarrow> bytes" where
  "EncodeRune n =
     (if n < 0x80 then [char_of n]
      else if n < 0x800 then [char_of (0xC0 + n div 64), char_of (0x80 + n mod 64)]
      else if 0xD800 \<le> n \<and> n \<le> 0xDFFF then [CHR 0xEF, CHR 0xBF, CHR 0xBD]
      else if n < 0x10000
      then [char_of (0xE0 + n div 4096), char_of (0x80 + (n div 64) mod 64), char_of (0x80 + n mod 64)]
      else [char_of (0xF0 + n div 262144), char_of (0x80 + (n div 4096) mod 64),
            char_of (0x80 + (n div 64) mod 64), char_of (0x80 + n mod 64)])"

definition hex_digit :: "char \<Rightarrow> bool" where
  "hex_digit c = (byte_in 0x30 0x39 c \<or> byte_in 0x61 0x66 c \<or> byte_in 0x41 0x46 c)"

definition hex_val :: "char \<Rightarrow> nat" where
  "hex_val c =
     (if byte_in 0x61 0x66 c then of_char c - 0x57
      else if byte_in 0x41 0x46 c then of_char c - 0x37
      else of_char c - 0x30)"

definition num_val :: "nat \<Rightarrow> string \<Rightarrow> nat" where
  "num_val base ds = foldl (\<lambda>a c. a * base + hex_val c) 0 ds"

text \<open>
  The reference after \<open>&\<close> in \<open>text\<close>: its replacement text and the input after the
  semicolon. In strict mode anything else is a syntax error.
\<close>

definition char_ref :: "error \<Rightarrow> nat \<Rightarrow> bytes \<Rightarrow> error + (bytes \<times> bytes)" where
  "char_ref rd base inp =
     (let isd = (if base = 16 then hex_digit else byte_in 0x30 0x39);
          ds = takeWhile isd inp; rest = dropWhile isd inp
      in case rest of
           [] \<Rightarrow> Inl (eof_error rd)
         | b # rest' \<Rightarrow>
             if b \<noteq> CHR '';'' \<or> ds = [] \<or> num_val base ds > 0x10FFFF
             then Inl (SyntaxError ''invalid character entity'')
             else Inr (EncodeRune (num_val base ds), rest'))"

definition named_ref :: "string \<Rightarrow> bytes option" where
  "named_ref s =
     (if s = ''lt'' then Some ''<''
      else if s = ''gt'' then Some ''>''
      else if s = ''amp'' then Some ''&''
      else if s = ''apos'' then Some [CHR 0x27]
      else if s = ''quot'' then Some [CHR 0x22]
      else None)"

definition entity :: "error \<Rightarrow> bytes \<Rightarrow> error + (bytes \<times> bytes)" where
  "entity rd inp =
     (case inp of
        [] \<Rightarrow> Inl (eof_error rd)
      | b # r1 \<Rightarrow>
          if b = CHR ''#'' then
            (case r1 of
               [] \<Rightarrow> Inl (eof_error rd)
             | b1 # r2 \<Rightarrow>
                 if b1 = CHR ''x'' then (if r2 = [] then Inl (eof_error rd) else char_ref rd 16 r2)
                 else char_ref rd 10 r1)
          else
            (let s = takeWhile name_byte inp; rest = dropWhile name_byte inp
             in case rest of
                  [] \<Rightarrow> Inl (eof_error rd)
                | c # rest' \<Rightarrow>
                    if c \<noteq> CHR '';'' then Inl (SyntaxError ''invalid character entity'')
                    else (case named_ref s of
                            None \<Rightarrow> Inl (SyntaxError ''invalid character entity'')
                          | Some t \<Rightarrow> Inr (t, rest'))))"

text \<open>The check at the end of \<open>text\<close>: every rune well-formed and in the character range.\<close>

function valid_text :: "bytes \<Rightarrow> bool" where
  "valid_text [] = True"
| "valid_text (c # cs) =
     (case DecodeRune (c # cs) of
        (r, width) \<Rightarrow> \<not> (r = RuneError \<and> width = 1) \<and> isInCharacterRange r
                      \<and> valid_text (drop width (c # cs)))"
  by pat_completeness auto
termination
proof (relation "measure length")
  show "wf (measure length)" by simp
next
  fix c :: char and cs :: bytes and r width
  assume "(r, width) = DecodeRune (c # cs)"
  then have w: "width = snd (DecodeRune (c # cs))" by (metis snd_conv)
  have "1 \<le> width" unfolding w using DecodeRune_width [of "c # cs"] by blast
  then show "(drop width (c # cs), c # cs) \<in> measure length" by auto
qed

declare valid_text.simps [simp del]

lemma dropWhile_Cons_shorter: "dropWhile P xs = y # ys \<Longrightarrow> length ys < length xs"
  by (metis length_dropWhile_le length_Cons less_eq_Suc_le)

lemma char_ref_shorter: "char_ref rd base inp = Inr (t, rest) \<Longrightarrow> length rest < length inp"
  by (auto simp: char_ref_def Let_def split: list.splits if_splits dest: dropWhile_Cons_shorter)

lemma entity_shorter: "entity rd inp = Inr (t, rest) \<Longrightarrow> length rest < length inp"
  by (auto simp: entity_def Let_def split: list.splits if_splits option.splits
      dest!: dropWhile_Cons_shorter char_ref_shorter)

text \<open>
  \<open>(*Decoder).text\<close> outside CDATA: \<open>q\<close> is the quote that ends the text (\<open>None\<close> for
  character data, which ends before \<open><\<close>), \<open>b0\<close> and \<open>b1\<close> the two bytes read last. At
  the end of the input the text read so far is returned; the reader's error comes with the
  next read.
\<close>

function text_go :: "error \<Rightarrow> char option \<Rightarrow> char \<Rightarrow> char \<Rightarrow> bytes \<Rightarrow> bytes
                       \<Rightarrow> error + (bytes \<times> bytes)" where
  "text_go rd q b0 b1 acc [] = Inr (acc, [])"
| "text_go rd q b0 b1 acc (b # inp) =
     (if b0 = CHR '']'' \<and> b1 = CHR '']'' \<and> b = CHR ''>''
      then Inl (SyntaxError ''unescaped ]]> not in CDATA section'')
      else if b = CHR ''<''
      then (if q \<noteq> None then Inl (SyntaxError ''unescaped < inside quoted string'')
            else Inr (acc, b # inp))
      else if q = Some b then Inr (acc, inp)
      else if b = CHR ''&''
      then (case entity rd inp of
              Inl e \<Rightarrow> Inl e
            | Inr (t, rest) \<Rightarrow> text_go rd q (CHR 0x00) (CHR 0x00) (acc @ t) rest)
      else if b = CHR 0x0D then text_go rd q b1 b (acc @ [CHR 0x0A]) inp
      else if b1 = CHR 0x0D \<and> b = CHR 0x0A then text_go rd q b1 b acc inp
      else text_go rd q b1 b (acc @ [b]) inp)"
  by pat_completeness auto
termination
  by (relation "measure (\<lambda>(rd, q, b0, b1, acc, inp). length inp)")
     (auto dest: entity_shorter)

declare text_go.simps [simp del]

definition xml_text :: "error \<Rightarrow> char option \<Rightarrow> bytes \<Rightarrow> error + (bytes \<times> bytes)" where
  "xml_text rd q inp =
     (case text_go rd q (CHR 0x00) (CHR 0x00) [] inp of
        Inl e \<Rightarrow> Inl e
      | Inr (data, rest) \<Rightarrow>
          if valid_text data then Inr (data, rest)
          else Inl (SyntaxError ''invalid UTF-8 or illegal character code''))"

lemma text_go_le: "text_go rd q b0 b1 acc inp = Inr (data, rest) \<Longrightarrow> length rest \<le> length inp"
proof (induction inp arbitrary: b0 b1 acc rule: length_induct)
  case (1 inp)
  have IH: "length ys < length inp \<Longrightarrow> text_go rd q c0 c1 a ys = Inr (data, rest)
      \<Longrightarrow> length rest \<le> length inp" for ys c0 c1 a
    using "1.IH" by (meson less_imp_le order.trans)
  show ?case
  proof (cases inp)
    case Nil
    with "1.prems" show ?thesis by (simp add: text_go.simps(1))
  next
    case (Cons b inp')
    have e: "entity rd inp' = Inr (t, r) \<Longrightarrow> length r < length inp" for t r
      using entity_shorter [of rd inp' t r] Cons by simp
    have i: "length inp' < length inp" using Cons by simp
    from "1.prems" show ?thesis
      unfolding Cons text_go.simps(2)
      by (auto split: if_splits sum.splits prod.splits
          dest: IH [OF i, unfolded Cons] IH [OF e, unfolded Cons])
  qed
qed

lemma text_le: "xml_text rd q inp = Inr (data, rest) \<Longrightarrow> length rest \<le> length inp"
  by (auto simp: xml_text_def split: sum.splits if_splits dest: text_go_le)

lemma dropWhile_le_Suc: "length (dropWhile P xs) \<le> Suc (length xs)"
  by (simp add: le_SucI length_dropWhile_le)

lemma read_name_le: "read_name rd inp = Inr (x, rest) \<Longrightarrow> length rest \<le> length inp"
  by (auto simp: read_name_def Let_def dropWhile_le_Suc split: list.splits if_splits)

lemma nsname_le: "nsname rd inp = Inr (x, rest) \<Longrightarrow> length rest \<le> length inp"
  by (auto simp: nsname_def split: sum.splits prod.splits option.splits dest: read_name_le)

text \<open>The loop of \<open>rawToken\<close> over the attributes of a start tag.\<close>

function attrs_go :: "error \<Rightarrow> xml_Attr list \<Rightarrow> bytes \<Rightarrow> error + (xml_Attr list \<times> bool \<times> bytes)" where
  "attrs_go rd acc [] = Inl (eof_error rd)"
| "attrs_go rd acc (b # r1) =
     (if is_space b then attrs_go rd acc r1
      else if b = CHR ''/'' then
        (case r1 of
           [] \<Rightarrow> Inl (eof_error rd)
         | b2 # r2 \<Rightarrow>
             if b2 = CHR ''>'' then Inr (acc, True, r2)
             else Inl (SyntaxError ''expected /> in element''))
      else if b = CHR ''>'' then Inr (acc, False, r1)
      else
        (case nsname rd (b # r1) of
           Inl e \<Rightarrow> Inl e
         | Inr (None, r2) \<Rightarrow> Inl (SyntaxError ''expected attribute name in element'')
         | Inr (Some nm, r2) \<Rightarrow>
             (case dropWhile is_space r2 of
                [] \<Rightarrow> Inl (eof_error rd)
              | b3 # r3 \<Rightarrow>
                  if b3 \<noteq> CHR ''='' then Inl (SyntaxError ''attribute name without = in element'')
                  else
                    (case dropWhile is_space r3 of
                       [] \<Rightarrow> Inl (eof_error rd)
                     | b4 # r4 \<Rightarrow>
                         if b4 = CHR 0x22 \<or> b4 = CHR 0x27 then
                           (case xml_text rd (Some b4) r4 of
                              Inl e \<Rightarrow> Inl e
                            | Inr (v, r5) \<Rightarrow>
                                attrs_go rd (acc @ [\<lparr>a_Name = nm, a_Value = v\<rparr>]) r5)
                         else Inl (SyntaxError
                                     ''unquoted or missing attribute value in element'')))))"
  by pat_completeness auto

termination
  apply (relation "measure (\<lambda>(rd, acc, inp). length inp)")
    apply simp
   apply simp
  subgoal premises a for rd acc b r1 x nm0 r2 nm b3 r3 b4 r4 xb v r5
  proof -
    have "length r5 \<le> length r4" using a(11,12) text_le by metis
    also have "\<dots> < length r3" using a(9) by (rule dropWhile_Cons_shorter)
    also have "\<dots> < length r2" using a(7) by (rule dropWhile_Cons_shorter)
    also have "\<dots> \<le> length (b # r1)" using a(4,5) nsname_le by metis
    finally show ?thesis by simp
  qed
  done

declare attrs_go.simps [simp del]


text \<open>
  A processing instruction: the bytes up to \<open>?>\<close>. For the target \<open>xml\<close>, \<open>procInst\<close>
  reads the version and the encoding out of them.
\<close>

fun pi_data :: "char \<Rightarrow> bytes \<Rightarrow> bytes \<Rightarrow> (bytes \<times> bytes) option" where
  "pi_data b0 acc [] = None"
| "pi_data b0 acc (b # inp) =
     (if b0 = CHR ''?'' \<and> b = CHR ''>'' then Some (butlast acc, inp)
      else pi_data b (acc @ [b]) inp)"

fun after_first :: "bytes \<Rightarrow> bytes \<Rightarrow> bytes option" where
  "after_first p [] = (if p = [] then Some [] else None)"
| "after_first p (c # cs) =
     (if take (length p) (c # cs) = p then Some (drop (length p) (c # cs))
      else after_first p cs)"

definition procInst :: "string \<Rightarrow> bytes \<Rightarrow> bytes" where
  "procInst param s =
     (case after_first (param @ ''='') s of
        None \<Rightarrow> []
      | Some v \<Rightarrow>
          (case v of
             [] \<Rightarrow> []
           | q # v' \<Rightarrow>
               if q \<noteq> CHR 0x27 \<and> q \<noteq> CHR 0x22 then []
               else if q \<notin> set v' then []
               else takeWhile (\<lambda>c. c \<noteq> q) v'))"

definition to_lower :: "string \<Rightarrow> string" where
  "to_lower s = map (\<lambda>c. if byte_in 0x41 0x5A c then char_of ((of_char c :: nat) + 32) else c) s"

definition proc_inst :: "error \<Rightarrow> bytes \<Rightarrow> error + (token \<times> bytes)" where
  "proc_inst rd inp =
     (case read_name rd inp of
        Inl e \<Rightarrow> Inl e
      | Inr (None, r) \<Rightarrow> Inl (SyntaxError ''expected target name after <?'')
      | Inr (Some target, r) \<Rightarrow>
          (case pi_data (CHR 0x00) [] (dropWhile is_space r) of
             None \<Rightarrow> Inl (eof_error rd)
           | Some (data, rest) \<Rightarrow>
               if target = ''xml'' \<and> procInst ''version'' data \<noteq> []
                  \<and> procInst ''version'' data \<noteq> ''1.0''
               then Inl (Err ''xml: unsupported version'')
               else if target = ''xml'' \<and> procInst ''encoding'' data \<noteq> []
                  \<and> to_lower (procInst ''encoding'' data) \<noteq> ''utf-8''
               then Inl (Unmodelled ''CharsetReader'')
               else Inr (ProcInst target data, rest)))"

text \<open>
  \<open>rawToken\<close>: the next token, the input after it, and for a self-closing start tag the
  name whose end element is due next.
\<close>

definition rawToken :: "error \<Rightarrow> bytes \<Rightarrow> error + (token \<times> bytes \<times> xml_Name option)" where
  "rawToken rd inp =
     (case inp of
        [] \<Rightarrow> Inl rd
      | b # r0 \<Rightarrow>
          if b \<noteq> CHR ''<'' then
            (case xml_text rd None inp of
               Inl e \<Rightarrow> Inl e
             | Inr (data, rest) \<Rightarrow> Inr (CharData data, rest, None))
          else
            (case r0 of
               [] \<Rightarrow> Inl (eof_error rd)
             | b1 # r1 \<Rightarrow>
                 if b1 = CHR ''/'' then
                   (case nsname rd r1 of
                      Inl e \<Rightarrow> Inl e
                    | Inr (None, r2) \<Rightarrow> Inl (SyntaxError ''expected element name after </'')
                    | Inr (Some nm, r2) \<Rightarrow>
                        (case dropWhile is_space r2 of
                           [] \<Rightarrow> Inl (eof_error rd)
                         | b2 # r3 \<Rightarrow>
                             if b2 \<noteq> CHR ''>''
                             then Inl (SyntaxError ''invalid characters between </ and >'')
                             else Inr (EndElement nm, r3, None)))
                 else if b1 = CHR ''?'' then
                   (case proc_inst rd r1 of
                      Inl e \<Rightarrow> Inl e
                    | Inr (t, rest) \<Rightarrow> Inr (t, rest, None))
                 else if b1 = CHR ''!'' then Inl (Unmodelled ''markup declaration'')
                 else
                   (case nsname rd r0 of
                      Inl e \<Rightarrow> Inl e
                    | Inr (None, r2) \<Rightarrow> Inl (SyntaxError ''expected element name after <'')
                    | Inr (Some nm, r2) \<Rightarrow>
                        (case attrs_go rd [] r2 of
                           Inl e \<Rightarrow> Inl e
                         | Inr (attrs, selfclose, r3) \<Rightarrow>
                             Inr (StartElement nm attrs, r3,
                                  if selfclose then Some nm else None)))))"

lemma pi_data_shorter: "pi_data b0 acc inp = Some (d, rest) \<Longrightarrow> length rest < length inp"
  by (induction b0 acc inp rule: pi_data.induct) (auto split: if_splits intro: less_SucI)

lemma attrs_go_le: "attrs_go rd acc inp = Inr (as, em, rest) \<Longrightarrow> length rest < length inp"
proof (induction rd acc inp rule: attrs_go.induct)
  case (1 rd acc)
  then show ?case by (simp add: attrs_go.simps)
next
  case (2 rd acc b r1)
  show ?case
  proof (cases "is_space b")
    case True
    with "2.prems" have "attrs_go rd acc r1 = Inr (as, em, rest)"
      by (simp add: attrs_go.simps(2))
    from "2.IH"(1) [OF True this] show ?thesis by simp
  next
    case sp: False
    show ?thesis
    proof (cases "b = CHR ''/'' \<or> b = CHR ''>''")
      case True
      with "2.prems" sp show ?thesis
        by (auto simp: attrs_go.simps(2) split: list.splits if_splits intro: less_SucI)
    next
      case False
      with "2.prems" sp obtain nm r2 b3 r3 b4 r4 v r5 where
        n: "nsname rd (b # r1) = Inr (Some nm, r2)" and
        s2: "dropWhile is_space r2 = b3 # r3" "b3 = CHR ''=''" and
        s3: "dropWhile is_space r3 = b4 # r4" "b4 = CHR 0x22 \<or> b4 = CHR 0x27" and
        t: "xml_text rd (Some b4) r4 = Inr (v, r5)" and
        r: "attrs_go rd (acc @ [\<lparr>a_Name = nm, a_Value = v\<rparr>]) r5 = Inr (as, em, rest)"
        by (auto simp: attrs_go.simps(2)
            split: list.splits if_splits sum.splits prod.splits option.splits)
      from False have f: "b \<noteq> CHR ''/''" "b \<noteq> CHR ''>''" by auto
      from "2.IH"(2) [OF sp f n refl refl s2(1) _ s3(1) s3(2) t refl r] s2(2)
      have "length rest < length r5" by simp
      also have "\<dots> \<le> length r4" using t text_le by blast
      also have "\<dots> < length r3" using s3(1) by (rule dropWhile_Cons_shorter)
      also have "\<dots> < length r2" using s2(1) by (rule dropWhile_Cons_shorter)
      also have "\<dots> \<le> length (b # r1)" using n nsname_le by blast
      finally show ?thesis .
    qed
  qed
qed

lemma text_go_first:
  "b \<noteq> CHR ''<'' \<Longrightarrow> text_go rd None b0 b1 acc (b # inp) = Inr (data, rest) \<Longrightarrow> length rest \<le> length inp"
  by (auto simp: text_go.simps(2) split: if_splits sum.splits prod.splits
      dest!: text_go_le dest: entity_shorter)

lemma rawToken_shorter:
  assumes "rawToken rd inp = Inr (t, rest, nc)"
  shows "length rest < length inp"
proof (cases inp)
  case Nil
  with assms show ?thesis by (simp add: rawToken_def)
next
  case (Cons b r0)
  show ?thesis
  proof (cases "b = CHR ''<''")
    case False
    with assms Cons have "\<exists>data. text_go rd None (CHR 0x00) (CHR 0x00) [] (b # r0) = Inr (data, rest)"
      by (auto simp: rawToken_def xml_text_def split: sum.splits prod.splits if_splits)
    with False text_go_first Cons show ?thesis by fastforce
  next
    case True
    with assms Cons show ?thesis
      by (auto simp: rawToken_def proc_inst_def split: list.splits sum.splits prod.splits
            if_splits option.splits
          dest!: nsname_le attrs_go_le dropWhile_Cons_shorter read_name_le pi_data_shorter
          dest: order.strict_trans2 [OF _ length_dropWhile_le])
  qed
qed


text \<open>
  The tokens \<open>Token\<close> delivers, call after call, and the error that ends them: \<open>io_EOF\<close>
  at the end of the input when no element is open. \<open>stk\<close> holds the names of the open
  elements. A start tag pushes its name; an end tag must match the top of the stack.
\<close>

definition ptok :: "token \<Rightarrow> token list \<times> error \<Rightarrow> token list \<times> error" where
  "ptok t r = (t # fst r, snd r)"

function Tokens :: "error \<Rightarrow> xml_Name list \<Rightarrow> xml_Name option \<Rightarrow> bytes \<Rightarrow> token list \<times> error" where
  "Tokens rd stk (Some nm) inp = ptok (EndElement nm) (Tokens rd (tl stk) None inp)"
| "Tokens rd stk None [] = ([], if rd = io_EOF \<and> stk \<noteq> [] then SyntaxError ''unexpected EOF'' else rd)"
| "Tokens rd stk None (b # inp) =
     (case rawToken rd (b # inp) of
        Inl e \<Rightarrow> ([], if e = io_EOF \<and> stk \<noteq> [] then SyntaxError ''unexpected EOF'' else e)
      | Inr (t, rest, nc) \<Rightarrow>
          (case t of
             StartElement nm attrs \<Rightarrow> ptok t (Tokens rd (nm # stk) nc rest)
           | EndElement nm \<Rightarrow>
               (case stk of
                  [] \<Rightarrow> ([], SyntaxError ''unexpected end element'')
                | s # stk' \<Rightarrow>
                    if n_Local s \<noteq> n_Local nm
                    then ([], SyntaxError ''element closed by another end element'')
                    else if n_Space s \<noteq> n_Space nm
                    then ([], Unmodelled ''namespaces of start and end tag'')
                    else ptok t (Tokens rd stk' None rest))
           | _ \<Rightarrow> ptok t (Tokens rd stk None rest)))"
  by pat_completeness auto
termination
  by (relation "measure (\<lambda>(rd, stk, nc, inp). 2 * length inp + (if nc = None then 0 else 1))")
     (auto dest!: rawToken_shorter)

declare Tokens.simps [simp del]

section \<open>Scanning for a row\<close>

text \<open>
  \<open>strconv.Atoi\<close>, the value only (\<open>getRowElement\<close> drops the error): \<open>0\<close> on a syntax
  error, the nearest 64-bit value when out of range.
\<close>

definition Atoi :: "string \<Rightarrow> int" where
  "Atoi s =
     (let neg = (s \<noteq> [] \<and> hd s = CHR ''-'');
          ds = (if s \<noteq> [] \<and> (hd s = CHR ''-'' \<or> hd s = CHR ''+'') then tl s else s)
      in if ds = [] \<or> \<not> list_all (byte_in 0x30 0x39) ds then 0
         else if neg then (if num_val 10 ds > 2 ^ 63 then - (2 ^ 63) else - int (num_val 10 ds))
         else (if num_val 10 ds \<ge> 2 ^ 63 then 2 ^ 63 - 1 else int (num_val 10 ds)))"

text \<open>
  \<open>getRowElement\<close>: whether the token is a start element \<open>row\<close> with an attribute \<open>r\<close> whose
  number is \<open>hrow\<close>. The start element returned with \<open>ok\<close> is the token itself.
\<close>

definition getRowElement :: "token \<Rightarrow> int \<Rightarrow> bool" where
  "getRowElement tok hrow =
     (case tok of
        StartElement nm attrs \<Rightarrow>
          n_Local nm = ''row''
          \<and> list_ex (\<lambda>a. n_Local (a_Name a) = ''r'' \<and> Atoi (a_Value a) = hrow) attrs
      | _ \<Rightarrow> False)"

text \<open>
  \<open>DecodeElement(&row, &startElement)\<close>. \<open>xlsxRow\<close> and \<open>xlsxC\<close> are declared outside the
  two source files; the model decodes what \<open>getRowValues\<close> reads of them, the cells of the
  row in order, each with its attributes \<open>r\<close>, \<open>s\<close>, \<open>t\<close> and the character data of its
  child \<open>v\<close>. An integer field (\<open>r\<close> of the row, \<open>s\<close> of a cell) takes a decimal literal
  in the 64-bit range (white space around it, which the library trims, is not modelled);
  elements of other names are skipped with their content; the children \<open>f\<close> and \<open>is\<close> of a
  cell and the other attributes of a row and of a cell are not modelled. The decoding runs over
  the tokens that follow the start element: \<open>ctx\<close> is the element the decoder is in.
\<close>

definition is_int_lit :: "string \<Rightarrow> bool" where
  "is_int_lit s =
     (let neg = (s \<noteq> [] \<and> hd s = CHR ''-'');
          ds = (if s \<noteq> [] \<and> (hd s = CHR ''-'' \<or> hd s = CHR ''+'') then tl s else s)
      in ds \<noteq> [] \<and> list_all (byte_in 0x30 0x39) ds
         \<and> (if neg then num_val 10 ds \<le> 2 ^ 63 else num_val 10 ds < 2 ^ 63))"

definition attr_vals :: "string \<Rightarrow> xml_Attr list \<Rightarrow> string list" where
  "attr_vals nm attrs = map a_Value (filter (\<lambda>a. n_Local (a_Name a) = nm) attrs)"

definition cell_of_attrs :: "xml_Attr list \<Rightarrow> error + xlsxC" where
  "cell_of_attrs attrs =
     (if \<not> list_all is_int_lit (attr_vals ''s'' attrs)
      then Inl (Err ''strconv.ParseInt: invalid syntax'')
      else Inr (xlsxC_zero
             \<lparr>c_R := (case attr_vals ''r'' attrs of [] \<Rightarrow> [] | vs \<Rightarrow> last vs),
              c_S := (case attr_vals ''s'' attrs of [] \<Rightarrow> 0 | vs \<Rightarrow> Atoi (last vs)),
              c_T := (case attr_vals ''t'' attrs of [] \<Rightarrow> [] | vs \<Rightarrow> last vs)\<rparr>))"

datatype ctx = InRow | InCell | InV | Skipping nat ctx

fun unmarshalRow :: "ctx \<Rightarrow> xlsxC list \<Rightarrow> xlsxC \<Rightarrow> bytes \<Rightarrow> token list \<Rightarrow> error
                       \<Rightarrow> error + xlsxC list" where
  "unmarshalRow cx cells cur data [] e = Inl (eof_error e)"
| "unmarshalRow InRow cells cur data (StartElement nm attrs # ts) e =
     (if n_Local nm = ''c'' then
        (case cell_of_attrs attrs of
           Inl err \<Rightarrow> Inl err
         | Inr c \<Rightarrow> unmarshalRow InCell cells c data ts e)
      else unmarshalRow (Skipping 0 InRow) cells cur data ts e)"
| "unmarshalRow InRow cells cur data (EndElement nm # ts) e = Inr cells"
| "unmarshalRow InCell cells cur data (StartElement nm attrs # ts) e =
     (if n_Local nm = ''v'' then unmarshalRow InV cells cur [] ts e
      else if n_Local nm = ''f'' \<or> n_Local nm = ''is''
      then Inl (Unmodelled ''formula or inline string'')
      else unmarshalRow (Skipping 0 InCell) cells cur data ts e)"
| "unmarshalRow InCell cells cur data (EndElement nm # ts) e =
     unmarshalRow InRow (cells @ [cur]) cur data ts e"
| "unmarshalRow InV cells cur data (StartElement nm attrs # ts) e =
     unmarshalRow (Skipping 0 InV) cells cur data ts e"
| "unmarshalRow InV cells cur data (EndElement nm # ts) e =
     unmarshalRow InCell cells (cur\<lparr>c_V := data\<rparr>) data ts e"
| "unmarshalRow InV cells cur data (CharData d # ts) e =
     unmarshalRow InV cells cur (data @ d) ts e"
| "unmarshalRow (Skipping n cx) cells cur data (StartElement nm attrs # ts) e =
     unmarshalRow (Skipping (Suc n) cx) cells cur data ts e"
| "unmarshalRow (Skipping n cx) cells cur data (EndElement nm # ts) e =
     (case n of
        0 \<Rightarrow> unmarshalRow cx cells cur data ts e
      | Suc m \<Rightarrow> unmarshalRow (Skipping m cx) cells cur data ts e)"
| "unmarshalRow cx cells cur data (t # ts) e = unmarshalRow cx cells cur data ts e"

definition DecodeElement_row :: "xml_Attr list \<Rightarrow> token list \<Rightarrow> error \<Rightarrow> error + xlsxC list" where
  "DecodeElement_row attrs ts e =
     (if \<not> list_all is_int_lit (attr_vals ''r'' attrs)
      then Inl (Err ''strconv.ParseInt: invalid syntax'')
      else unmarshalRow InRow [] xlsxC_zero [] ts e)"

text \<open>
  The loop over the cells of the decoded row. \<open>res[col-hcol]\<close> panics when the index is
  outside the slice.
\<close>

fun fill_cells :: "encoders \<Rightarrow> int \<Rightarrow> int \<Rightarrow> string list \<Rightarrow> xlsxC list \<Rightarrow> error + string list" where
  "fill_cells X hcol vcol res [] = Inr res"
| "fill_cells X hcol vcol res (c # cs) =
     (case CellNameToCoordinates X (c_R c) of
        Inl e \<Rightarrow> Inl e
      | Inr (col, row) \<Rightarrow>
          if col < hcol \<or> col > vcol then fill_cells X hcol vcol res cs
          else if int_wrap (col - hcol) < 0 \<or> int (length res) \<le> int_wrap (col - hcol)
          then Inl (Panic ''index out of range'')
          else fill_cells X hcol vcol (res[nat (int_wrap (col - hcol)) := c_V c]) cs)"

text \<open>The loop of \<open>getRowValues\<close> over the tokens.\<close>

fun scan_rows :: "encoders \<Rightarrow> int \<Rightarrow> int \<Rightarrow> int \<Rightarrow> string list \<Rightarrow> token list \<Rightarrow> error
                    \<Rightarrow> error + string list" where
  "scan_rows X hrow hcol vcol res [] e = (if e = io_EOF then Inr res else Inl e)"
| "scan_rows X hrow hcol vcol res (t # ts) e =
     (if \<not> getRowElement t hrow then scan_rows X hrow hcol vcol res ts e
      else (case DecodeElement_row (case t of StartElement nm attrs \<Rightarrow> attrs | _ \<Rightarrow> []) ts e of
              Inl err \<Rightarrow> Inl err
            | Inr cells \<Rightarrow> fill_cells X hcol vcol res cells))"

text \<open>
  \<open>getRowValues\<close>. The length \<open>vcol-hcol+1\<close> is computed in \<open>int\<close>, and \<open>make\<close> panics on
  a negative length (the limit that memory puts on the length is not modelled). The
  decoder reads the reader to its end or to its first error.
\<close>

definition getRowValues :: "encoders \<Rightarrow> os_resp \<Rightarrow> int \<Rightarrow> int \<Rightarrow> int \<Rightarrow> 'p StreamWriter
                              \<Rightarrow> (error + string list) \<times> 'p StreamWriter" where
  "getRowValues X R hrow hcol vcol sw =
     (let n = int_wrap (int_wrap (vcol - hcol) + 1)
      in if n < 0 then (Inl (Panic ''makeslice: len out of range''), sw)
      else case bw_Reader R (rawData sw) of
        (Inl e, bw) \<Rightarrow> (Inl e, sw\<lparr>rawData := bw\<rparr>)
      | (Inr (bs, rd), bw) \<Rightarrow>
          (case Tokens rd [] None bs of
             (ts, e) \<Rightarrow>
               (scan_rows X hrow hcol vcol (replicate (nat n) []) ts e,
                sw\<lparr>rawData := bw\<rparr>)))"

section \<open>Table registration\<close>

record formatTable =
  TableName :: string
  TableStyle :: string
  ShowFirstColumn :: bool
  ShowLastColumn :: bool
  ShowRowStripes :: bool
  ShowColumnStripes :: bool

record xlsxTableColumn =
  tc_ID :: int
  tc_Name :: string

text \<open>
  The table \<open>AddTable\<close> builds: \<open>tb_Ref\<close> is the reference of the table and of its auto
  filter, \<open>tb_Columns\<close> the columns (their count is the length), \<open>tb_Style\<close> the fields
  copied from the format set.
\<close>

record xlsxTable =
  tb_XMLNS :: string
  tb_ID :: int
  tb_Name :: string
  tb_DisplayName :: string
  tb_Ref :: string
  tb_Columns :: "xlsxTableColumn list"
  tb_Style :: formatTable

text \<open>
  Functions and constants of the package that \<open>AddTable\<close> uses and that are defined
  outside the two source files, and \<open>xml.Marshal\<close> on a table. Those that change the package
  return the changed \<open>File\<close>.
\<close>

record 'p packaging =
  parseFormatTableSet :: "string \<Rightarrow> error + formatTable"
  coordinatesToAreaRef :: "int list \<Rightarrow> error + string"
  countTables :: "'p File \<Rightarrow> int"
  addRels :: "'p File \<Rightarrow> string \<Rightarrow> string \<Rightarrow> string \<Rightarrow> string \<Rightarrow> int \<times> 'p File"
  addContentTypePart :: "'p File \<Rightarrow> int \<Rightarrow> string \<Rightarrow> 'p File"
  saveFileList :: "'p File \<Rightarrow> string \<Rightarrow> bytes \<Rightarrow> 'p File"
  trimSheetName :: "string \<Rightarrow> string"
  xml_Marshal :: "xlsxTable \<Rightarrow> bytes"
  NameSpaceSpreadSheet :: string
  SourceRelationshipTable :: string

text \<open>
  Modelled from the spec: \<open>areaRangeToCoordinates\<close> and \<open>sortCoordinates\<close> are not in the two
  source files. The spec has a table's rectangle given by two corners, each a 1-based
  (column, row) position converted from a cell reference, and normalized so that top-left
  precedes bottom-right (the comment in \<open>AddTable\<close>: correct C1:B3 to B1:C3). \<open>AddTable\<close>
  reads the four coordinates as column, row, column, row.
\<close>

definition areaRangeToCoordinates :: "encoders \<Rightarrow> string \<Rightarrow> string \<Rightarrow> error + int list" where
  "areaRangeToCoordinates X firstCell lastCell =
     (case CellNameToCoordinates X firstCell of
        Inl e \<Rightarrow> Inl e
      | Inr (c0, r0) \<Rightarrow>
          (case CellNameToCoordinates X lastCell of
             Inl e \<Rightarrow> Inl e
           | Inr (c1, r1) \<Rightarrow> Inr [c0, r0, c1, r1]))"

definition sortCoordinates :: "int list \<Rightarrow> int list" where
  "sortCoordinates c =
     (if length c \<noteq> 4 then c
      else (let c1 = (if c ! 2 < c ! 0 then c[0 := c ! 2, 2 := c ! 0] else c)
            in if c1 ! 3 < c1 ! 1 then c1[1 := c1 ! 3, 3 := c1 ! 1] else c1))"

text \<open>
  The coordinates of \<open>AddTable\<close> (lines 114 to 123): converted, sorted, then, when the
  rectangle has a single row, \<open>coordinates[3]++\<close>, an increment of an \<open>int\<close>.
\<close>

definition tableCoordinates :: "encoders \<Rightarrow> string \<Rightarrow> string \<Rightarrow> error + int list" where
  "tableCoordinates X hcell vcell =
     (case areaRangeToCoordinates X hcell vcell of
        Inl e \<Rightarrow> Inl e
      | Inr c \<Rightarrow>
          (let coordinates = sortCoordinates c
           in Inr (if coordinates ! 1 = coordinates ! 3
                   then coordinates[3 := int_wrap (coordinates ! 3 + 1)]
                   else coordinates)))"

definition TrimPrefix :: "string \<Rightarrow> string \<Rightarrow> string" where
  "TrimPrefix s p = (if take (length p) s = p then drop (length p) s else s)"

definition tableParts_of :: "int \<Rightarrow> string" where
  "tableParts_of rID =
     ''<tableParts count=\"1\"><tablePart r:id=\"rId'' @ Itoa rID @ ''\"></tablePart></tableParts>''"

text \<open>
  \<open>AddTable\<close> from line 125 on, what it does with the coordinates: the area reference, the
  header row read from the buffer, the table built and saved, the \<open>tableParts\<close> markup set.
  \<open>strings.Replace\<close> turns the leading \<open>..\<close> of the relationship target, its only one, into
  \<open>xl\<close>.
\<close>

definition registerTable :: "encoders \<Rightarrow> 'p packaging \<Rightarrow> os_resp \<Rightarrow> formatTable \<Rightarrow> int list
                               \<Rightarrow> 'p StreamWriter \<Rightarrow> error option \<times> 'p StreamWriter" where
  "registerTable X P R formatSet coordinates sw =
     (case coordinatesToAreaRef P coordinates of
        Inl e \<Rightarrow> (Some e, sw)
      | Inr ref \<Rightarrow>
          (case getRowValues X R (coordinates ! 1) (coordinates ! 0) (coordinates ! 2) sw of
             (Inl e, sw1) \<Rightarrow> (Some e, sw1)
           | (Inr tableHeaders, sw1) \<Rightarrow>
               (let tableColumn =
                      map (\<lambda>(i, name). \<lparr>tc_ID = int i + 1, tc_Name = name\<rparr>)
                          (enumerate 0 tableHeaders);
                    tableID = int_wrap (countTables P (sw_File sw1) + 1);
                    name = (if TableName formatSet = [] then ''Table'' @ Itoa tableID
                            else TableName formatSet);
                    table = \<lparr>tb_XMLNS = NameSpaceSpreadSheet P, tb_ID = tableID,
                             tb_Name = name, tb_DisplayName = name, tb_Ref = ref,
                             tb_Columns = tableColumn, tb_Style = formatSet\<rparr>;
                    sheetRelationshipsTableXML = ''../tables/table'' @ Itoa tableID @ ''.xml'';
                    tableXML = ''xl/tables/table'' @ Itoa tableID @ ''.xml'';
                    sheetPath = (case sheetMap (sw_File sw1) (trimSheetName P (sw_Sheet sw1)) of
                                   None \<Rightarrow> [] | Some x \<Rightarrow> x);
                    sheetRels = ''xl/worksheets/_rels/''
                                @ TrimPrefix sheetPath ''xl/worksheets/'' @ ''.rels''
                in case addRels P (sw_File sw1) sheetRels (SourceRelationshipTable P)
                          sheetRelationshipsTableXML [] of
                     (rID, f1) \<Rightarrow>
                       (None,
                        sw1\<lparr>sw_File := saveFileList P (addContentTypePart P f1 tableID ''table'')
                                           tableXML (xml_Marshal P table),
                            tableParts := tableParts_of rID\<rparr>))))"

text \<open>\<open>AddTable\<close>: the format set, the coordinates, then the registration.\<close>

definition AddTable :: "encoders \<Rightarrow> 'p packaging \<Rightarrow> os_resp \<Rightarrow> string \<Rightarrow> string \<Rightarrow> string
                          \<Rightarrow> 'p StreamWriter \<Rightarrow> error option \<times> 'p StreamWriter" where
  "AddTable X P R hcell vcell format sw =
     (case parseFormatTableSet P format of
        Inl e \<Rightarrow> (Some e, sw)
      | Inr formatSet \<Rightarrow>
          (case tableCoordinates X hcell vcell of
             Inl e \<Rightarrow> (Some e, sw)
           | Inr coordinates \<Rightarrow> registerTable X P R formatSet coordinates sw))"

section \<open>An instance of the outside functions\<close>

text \<open>
  Modelled from the spec: the coordinate utilities and the cell encoder's leaves
  (\<open>CellNameToCoordinates\<close>, \<open>CoordinatesToCellName\<close>, \<open>setCellInt\<close>, \<open>setCellStr\<close>,
  \<open>setCellBool\<close>, \<open>setCellTime\<close> and the others of \<open>encoders\<close>) are not in the two source
  files. This instance follows the spec's words: positions are 1-based (column, row)
  pairs, column 1 row 1 is \<open>A1\<close>; an integer maps to its decimal literal with no type tag;
  text maps to the string tag and the text verbatim, with the space marker when it starts
  or ends with a space; a boolean maps to the boolean tag and \<open>0\<close> or \<open>1\<close>; a timestamp
  conversion can fail. The numeric literals of floats, durations and timestamps are not
  computed (\<open>0\<close> stands for them). The instance serves to run the model on examples.
\<close>

definition is_alpha :: "char \<Rightarrow> bool" where
  "is_alpha c = (byte_in 0x41 0x5A c \<or> byte_in 0x61 0x7A c)"

definition is_digit :: "char \<Rightarrow> bool" where
  "is_digit c = byte_in 0x30 0x39 c"

definition letter_val :: "char \<Rightarrow> nat" where
  "letter_val c = (if byte_in 0x61 0x7A c then of_char c - 0x60 else of_char c - 0x40)"

definition col_num :: "string \<Rightarrow> nat" where
  "col_num ls = foldl (\<lambda>a c. a * 26 + letter_val c) 0 ls"

definition dec_val :: "string \<Rightarrow> nat" where
  "dec_val ds = foldl (\<lambda>a c. a * 10 + (of_char c - 0x30)) 0 ds"

fun col_name :: "nat \<Rightarrow> string" where
  "col_name n =
     (if n = 0 then []
      else col_name ((n - 1) div 26) @ [''ABCDEFGHIJKLMNOPQRSTUVWXYZ'' ! ((n - 1) mod 26)])"

declare col_name.simps [simp del]

definition ex_CellNameToCoordinates :: "string \<Rightarrow> error + int \<times> int" where
  "ex_CellNameToCoordinates cell =
     (let ls = takeWhile is_alpha cell; ds = dropWhile is_alpha cell
      in if ls = [] \<or> ds = [] \<or> \<not> list_all is_digit ds \<or> dec_val ds = 0
         then Inl (Err ''invalid cell name'')
         else Inr (int (col_num ls), int (dec_val ds)))"

definition ex_CoordinatesToCellName :: "int \<Rightarrow> int \<Rightarrow> error + string" where
  "ex_CoordinatesToCellName col row =
     (if col < 1 \<or> row < 1 then Inl (Err ''invalid cell coordinates'')
      else Inr (col_name (nat col) @ Itoa row))"

definition ex_setCellStr :: "string \<Rightarrow> string \<times> string \<times> xml_Attr" where
  "ex_setCellStr v =
     (''str'', v,
      if v \<noteq> [] \<and> (hd v = CHR '' '' \<or> last v = CHR '' '')
      then \<lparr>a_Name = \<lparr>n_Space = ''http://www.w3.org/XML/1998/namespace'', n_Local = ''space''\<rparr>,
            a_Value = ''preserve''\<rparr>
      else \<lparr>a_Name = \<lparr>n_Space = [], n_Local = []\<rparr>, a_Value = []\<rparr>)"

definition ex_setCellTime :: "go_Time \<Rightarrow> (string \<times> string \<times> bool) \<times> error option" where
  "ex_setCellTime t =
     (if t_utc t then (([], ''0'', True), None)
      else (([], [], False), Some (Err ''only UTC time expected'')))"

definition ex_Sprint :: "val \<Rightarrow> string" where
  "ex_Sprint v = (case v of VOther x \<Rightarrow> x | VCellPtr None \<Rightarrow> ''<nil>'' | _ \<Rightarrow> ''?'')"

definition ex_encoders :: encoders where
  "ex_encoders =
     \<lparr>CellNameToCoordinates = ex_CellNameToCoordinates,
      CoordinatesToCellName = ex_CoordinatesToCellName,
      setCellInt = (\<lambda>i. ([], Itoa i)),
      setCellFloat = (\<lambda>f prec bitSize. ([], ''0'')),
      setCellStr = ex_setCellStr,
      setCellDuration = (\<lambda>d. ([], ''0'')),
      setCellTime = ex_setCellTime,
      setCellBool = (\<lambda>b. (''b'', if b then ''1'' else ''0'')),
      float64_of_float32 = (\<lambda>w. 0),
      fmt_Sprint = ex_Sprint\<rparr>"

definition ex_File :: "unit File" where
  "ex_File = \<lparr>XLSX = Map.empty, Sheet = Map.empty, checked = Map.empty,
              sheetMap = [''Sheet1'' \<mapsto> ''xl/worksheets/sheet1.xml''], pkg = ()\<rparr>"

definition ex_sw :: "bytes \<Rightarrow> unit StreamWriter" where
  "ex_sw content =
     \<lparr>sw_File = ex_File, sw_Sheet = ''Sheet1'', SheetID = 1, worksheet = [],
      rawData = \<lparr>tmp = None, buf = content\<rparr>, tableParts = []\<rparr>"

text \<open>
  An instance of the packaging functions, for running \<open>AddTable\<close> on examples: the package
  state is the number of tables; the format set is parsed from the empty string only.
\<close>

definition ex_packaging :: "nat packaging" where
  "ex_packaging =
     \<lparr>parseFormatTableSet = (\<lambda>s. if s = [] then
          Inr \<lparr>TableName = [], TableStyle = [], ShowFirstColumn = False, ShowLastColumn = False,
               ShowRowStripes = False, ShowColumnStripes = False\<rparr>
          else Inl (Err ''invalid character'')),
      coordinatesToAreaRef = (\<lambda>c.
          case ex_CoordinatesToCellName (c ! 0) (c ! 1) of
            Inl e \<Rightarrow> Inl e
          | Inr a \<Rightarrow> (case ex_CoordinatesToCellName (c ! 2) (c ! 3) of
                        Inl e \<Rightarrow> Inl e
                      | Inr b \<Rightarrow> Inr (a @ '':'' @ b))),
      countTables = (\<lambda>f. int (pkg f)),
      addRels = (\<lambda>f rels typ target mode. (int (pkg f) + 1, f)),
      addContentTypePart = (\<lambda>f i typ. f\<lparr>pkg := Suc (pkg f)\<rparr>),
      saveFileList = (\<lambda>f name b. f\<lparr>XLSX := (XLSX f)(name \<mapsto> b)\<rparr>),
      trimSheetName = (\<lambda>s. s),
      xml_Marshal = (\<lambda>t. ''<table ref=\"'' @ tb_Ref t @ ''\"></table>''),
      NameSpaceSpreadSheet = ''http://schemas.openxmlformats.org/spreadsheetml/2006/main'',
      SourceRelationshipTable =
        ''http://schemas.openxmlformats.org/officeDocument/2006/relationships/table''\<rparr>"

definition ex_nsw :: "bytes \<Rightarrow> nat StreamWriter" where
  "ex_nsw bs =
     \<lparr>sw_File = \<lparr>XLSX = Map.empty, Sheet = Map.empty, checked = Map.empty,
                  sheetMap = [''Sheet1'' \<mapsto> ''xl/worksheets/sheet1.xml''], pkg = 0\<rparr>,
      sw_Sheet = ''Sheet1'', SheetID = 1, worksheet = [],
      rawData = \<lparr>tmp = None, buf = bs\<rparr>, tableParts = []\<rparr>"

section \<open>Notions used in the statements\<close>

text \<open>
  The logical content of the elastic buffer: what the backing store holds, followed by the
  in-memory region. \<open>bw_ok\<close>: the cursor of the backing store is at its end and the file is
  open, as it is from its creation until \<open>Close\<close>.
\<close>

definition content :: "bufferedWriter \<Rightarrow> bytes" where
  "content bw = (case tmp bw of None \<Rightarrow> [] | Some f \<Rightarrow> f_data f) @ buf bw"

definition file_ok :: "os_File \<Rightarrow> bool" where
  "file_ok f = (f_off f = length (f_data f) \<and> \<not> f_closed f)"

definition bw_ok :: "bufferedWriter \<Rightarrow> bool" where
  "bw_ok bw = (case tmp bw of None \<Rightarrow> True | Some f \<Rightarrow> file_ok f)"

text \<open>
  A use of the buffer: writes interleaved with \<open>Sync\<close> calls, each with the answers of the
  operating system during that call. The caller may go on after a \<open>Sync\<close> that failed.
\<close>

datatype bw_op = Write bytes | Sync os_resp

fun bw_run :: "bw_op list \<Rightarrow> bufferedWriter \<Rightarrow> bufferedWriter" where
  "bw_run [] bw = bw"
| "bw_run (Write p # ops) bw = bw_run ops (bw_WriteString p bw)"
| "bw_run (Sync R # ops) bw = bw_run ops (snd (bw_Sync R bw))"

fun written :: "bw_op list \<Rightarrow> bytes" where
  "written [] = []"
| "written (Write p # ops) = p @ written ops"
| "written (Sync R # ops) = written ops"


text \<open>The bytes \<open>writeCell\<close> appends for a cell, and the opening row marker.\<close>

definition cell_bytes :: "xlsxC \<Rightarrow> bytes" where
  "cell_bytes c =
     ''<c''
     @ (if a_Value (c_XMLSpace c) \<noteq> []
        then '' xml:'' @ n_Local (a_Name (c_XMLSpace c)) @ ''=\"'' @ a_Value (c_XMLSpace c) @ ''\"''
        else [])
     @ '' r=\"'' @ c_R c @ ''\"''
     @ (if c_S c \<noteq> 0 then '' s=\"'' @ Itoa (c_S c) @ ''\"'' else [])
     @ (if c_T c \<noteq> [] then '' t=\"'' @ c_T c @ ''\"'' else [])
     @ ''>''
     @ (if c_V c \<noteq> [] then ''<v>'' @ EscapeText (c_V c) @ ''</v>'' else [])
     @ ''</c>''"

definition row_open :: "int \<Rightarrow> bytes" where
  "row_open row = ''<row r=\"'' @ Itoa row @ ''\">''"


text \<open>
  A session whose buffer has spilled to a backing store, and an operating system on which
  every write fails.
\<close>

definition spilled_sw :: "unit StreamWriter" where
  "spilled_sw = (ex_sw ''<row r=\"2\"></row>'')\<lparr>rawData :=
     \<lparr>tmp = Some \<lparr>f_name = ''excelize-1'', f_data = ''<sheetData>'', f_off = 11,
                   f_closed = False, f_removed = False\<rparr>,
      buf = ''<row r=\"2\"></row>''\<rparr>\<rparr>"

definition disk_full :: os_resp where
  "disk_full = os_ok\<lparr>Write_r := Some (0, Err ''no space left on device'')\<rparr>"




text \<open>
  Markup as the writer emits it. A plain character can stand in a double-quoted attribute
  value unescaped; an inert byte is copied by the decoder's \<open>text\<close> as it is. \<open>cell_ok\<close>:
  the name and type of the cell are plain, its text is well-formed UTF-8 of characters that
  XML allows, its style fits 64 bits, and its space marker, if any, is named \<open>space\<close>.
  \<open>cell_attrs\<close> and \<open>cell_tokens\<close> are the attributes and tokens that \<open>cell_bytes\<close> decodes
  to.
\<close>

definition plain_char :: "char \<Rightarrow> bool" where
  "plain_char c = (byte_in 0x20 0x7E c \<and> c \<noteq> CHR 0x22 \<and> c \<noteq> CHR ''&'' \<and> c \<noteq> CHR ''<''
                   \<and> c \<noteq> CHR ''>'')"

definition inert :: "char \<Rightarrow> bool" where
  "inert b = (b \<noteq> CHR ''<'' \<and> b \<noteq> CHR ''&'' \<and> b \<noteq> CHR 0x0D \<and> b \<noteq> CHR 0x0A \<and> b \<noteq> CHR ''>'')"

definition xnm :: "string \<Rightarrow> xml_Name" where
  "xnm s = \<lparr>n_Space = [], n_Local = s\<rparr>"

definition xat :: "string \<Rightarrow> string \<Rightarrow> xml_Attr" where
  "xat k v = \<lparr>a_Name = xnm k, a_Value = v\<rparr>"

definition ptoks :: "token list \<Rightarrow> token list \<times> error \<Rightarrow> token list \<times> error" where
  "ptoks ts r = (ts @ fst r, snd r)"

definition cell_ok :: "xlsxC \<Rightarrow> bool" where
  "cell_ok c =
     (list_all plain_char (c_R c) \<and> list_all plain_char (c_T c) \<and> valid_text (c_V c)
      \<and> - (2 ^ 63) \<le> c_S c \<and> c_S c < 2 ^ 63
      \<and> (a_Value (c_XMLSpace c) = []
          \<or> n_Local (a_Name (c_XMLSpace c)) = ''space'' \<and> list_all plain_char (a_Value (c_XMLSpace c))))"

definition cell_attrs :: "xlsxC \<Rightarrow> xml_Attr list" where
  "cell_attrs c =
     (if a_Value (c_XMLSpace c) \<noteq> []
      then [\<lparr>a_Name = \<lparr>n_Space = ''xml'', n_Local = ''space''\<rparr>, a_Value = a_Value (c_XMLSpace c)\<rparr>]
      else [])
     @ [xat ''r'' (c_R c)]
     @ (if c_S c \<noteq> 0 then [xat ''s'' (Itoa (c_S c))] else [])
     @ (if c_T c \<noteq> [] then [xat ''t'' (c_T c)] else [])"

definition cell_tokens :: "xlsxC \<Rightarrow> token list" where
  "cell_tokens c =
     StartElement (xnm ''c'') (cell_attrs c)
     # (if c_V c \<noteq> [] then [StartElement (xnm ''v'') [], CharData (c_V c), EndElement (xnm ''v'')]
        else [])
     @ [EndElement (xnm ''c'')]"

text \<open>The bytes of the attributes of a cell, up to and including the closing bracket.\<close>

definition attr_bytes :: "xlsxC \<Rightarrow> bytes" where
  "attr_bytes c =
     (if a_Value (c_XMLSpace c) \<noteq> []
      then '' xml:'' @ n_Local (a_Name (c_XMLSpace c)) @ ''=\"'' @ a_Value (c_XMLSpace c) @ ''\"''
      else [])
     @ '' r=\"'' @ c_R c @ ''\"''
     @ (if c_S c \<noteq> 0 then '' s=\"'' @ Itoa (c_S c) @ ''\"'' else [])
     @ (if c_T c \<noteq> [] then '' t=\"'' @ c_T c @ ''\"'' else [])
     @ ''>''"


text \<open>
  Examples: a header cell, the buffer of a session that has written it as its first row,
  and the format set the example packaging parses from the empty string.
\<close>

definition ex_cell :: xlsxC where
  "ex_cell = xlsxC_zero\<lparr>c_R := ''A1'', c_T := ''str'', c_V := ''Name''\<rparr>"

definition ex_header :: bytes where
  "ex_header = ''<sheetData><row r=\"1\"><c r=\"A1\" t=\"str\"><v>Name</v></c></row>''"

definition ex_format :: formatTable where
  "ex_format = \<lparr>TableName = [], TableStyle = [], ShowFirstColumn = False, ShowLastColumn = False,
                 ShowRowStripes = False, ShowColumnStripes = False\<rparr>"

section \<open>The elastic buffer\<close>

lemma store_at_end [simp]: "store_at (length d) p d = d @ p"
  by (simp add: store_at_def)

lemma File_Write_content:
  "file_ok f \<Longrightarrow> File_Write R p f = ((m, e), f') \<Longrightarrow>
     f_data f' = f_data f @ take m p \<and> file_ok f' \<and> m \<le> length p
     \<and> f_removed f' = f_removed f \<and> f_name f' = f_name f"
  by (auto simp: File_Write_def file_ok_def Let_def min_def split: if_splits option.splits prod.splits)

lemma Buffer_WriteTo_content:
  assumes "file_ok f" "Buffer_WriteTo R b f = (e, b', f')"
  shows "f_data f' @ b' = f_data f @ b \<and> file_ok f'
     \<and> f_removed f' = f_removed f \<and> f_name f' = f_name f \<and> (e = None \<longrightarrow> b' = [])"
proof (cases "b = []")
  case True
  with assms show ?thesis by (simp add: Buffer_WriteTo_def)
next
  case False
  obtain m e0 f0 where w: "File_Write R b f = ((m, e0), f0)"
    by (metis prod.exhaust)
  from File_Write_content [OF assms(1) w] have
    d: "f_data f0 = f_data f @ take m b" "file_ok f0" "m \<le> length b"
      "f_removed f0 = f_removed f" "f_name f0 = f_name f" by auto
  from assms(2) False w have "f' = f0" "b' = drop m b" "e = None \<longrightarrow> b' = []"
    by (auto simp: Buffer_WriteTo_def split: option.splits if_splits)
  with d show ?thesis by simp
qed

lemma bw_Flush_content:
  assumes "bw_ok bw" "bw_Flush R bw = (e, bw')"
  shows "content bw' = content bw \<and> bw_ok bw' \<and> (tmp bw' = None) = (tmp bw = None)"
proof (cases "tmp bw")
  case None
  with assms show ?thesis by (simp add: bw_Flush_def)
next
  case (Some f)
  obtain e0 b0 f0 where w: "Buffer_WriteTo R (buf bw) f = (e0, b0, f0)"
    by (metis prod.exhaust)
  from assms(1) Some have "file_ok f" by (simp add: bw_ok_def)
  from Buffer_WriteTo_content [OF this w] have
    d: "f_data f0 @ b0 = f_data f @ buf bw" "file_ok f0" "e0 = None \<longrightarrow> b0 = []" by auto
  from assms(2) Some w d show ?thesis
    by (cases e0) (auto simp: bw_Flush_def content_def bw_ok_def)
qed

lemma bw_Flush_success:
  assumes "bw_ok bw" "Write_r R = None"
  shows "\<exists>bw'. bw_Flush R bw = (None, bw') \<and> (tmp bw \<noteq> None \<longrightarrow> buf bw' = [])"
  using assms
  by (auto simp: bw_Flush_def Buffer_WriteTo_def File_Write_def bw_ok_def file_ok_def
      split: option.splits prod.splits if_splits)

lemma bw_Sync_content:
  assumes "bw_ok bw" "bw_Sync R bw = (e, bw')"
  shows "content bw' = content bw \<and> bw_ok bw'"
proof -
  have n: "bw_ok (bw\<lparr>tmp := Some (new_File nm)\<rparr>)" for nm
    by (simp add: bw_ok_def file_ok_def new_File_def)
  have c: "tmp bw = None \<Longrightarrow> content (bw\<lparr>tmp := Some (new_File nm)\<rparr>) = content bw" for nm
    by (simp add: content_def new_File_def)
  have zc: "content (bw\<lparr>tmp := None\<rparr>) = buf bw"
    by (simp add: content_def)
  have zd: "tmp bw = None \<Longrightarrow> content bw = buf bw"
    by (simp add: content_def)
  have za: "bw_ok (bw\<lparr>tmp := None\<rparr>)"
    by (simp add: bw_ok_def)
  from assms show ?thesis
    using bw_Flush_content [OF assms(1)] bw_Flush_content [OF n] c zc zd za
    by (auto simp: bw_Sync_def split: if_splits option.splits sum.splits)
qed

lemma bw_WriteString_content:
  "content (bw_WriteString p bw) = content bw @ p" "bw_ok (bw_WriteString p bw) = bw_ok bw"
  by (simp_all add: content_def bw_WriteString_def bw_ok_def)

lemma bw_run_content:
  "bw_ok bw \<Longrightarrow> content (bw_run ops bw) = content bw @ written ops \<and> bw_ok (bw_run ops bw)"
proof (induction ops arbitrary: bw)
  case Nil
  then show ?case by simp
next
  case (Cons a ops)
  show ?case
  proof (cases a)
    case (Write p)
    with Cons show ?thesis by (simp add: bw_WriteString_content)
  next
    case (Sync R)
    obtain e bw' where s: "bw_Sync R bw = (e, bw')" by (metis prod.exhaust)
    from bw_Sync_content [OF Cons.prems s] Cons.IH [of bw'] Sync s show ?thesis by simp
  qed
qed

lemma sint64_id: "0 \<le> x \<Longrightarrow> x < 2 ^ 63 \<Longrightarrow> sint (word_of_int x :: 64 word) = x"
  by (simp add: sint_sbintrunc' signed_take_bit_int_eq_self)

lemma bw_Bytes_content:
  assumes ok: "bw_ok bw" and w: "Write_r R = None" and sk: "Seek_r R = None" and rd: "Read_r R = None"
    and sz: "int (length (content bw)) + 512 < 2 ^ 63"
  shows "fst (bw_Bytes R bw) = (content bw, None)"
proof (cases "tmp bw")
  case None
  then show ?thesis by (simp add: bw_Bytes_def content_def)
next
  case (Some f0)
  from bw_Flush_success [OF ok w] obtain bw1 where
    fl: "bw_Flush R bw = (None, bw1)" and e: "buf bw1 = []" using Some by auto
  from bw_Flush_content [OF ok fl] Some have
    c: "content bw1 = content bw" and ok1: "bw_ok bw1" and "tmp bw1 \<noteq> None" by auto
  then obtain f where t: "tmp bw1 = Some f" by auto
  with ok1 have fo: "file_ok f" by (simp add: bw_ok_def)
  from c t e have d: "f_data f = content bw" by (simp add: content_def)
  have "sint (word_of_int (int (length (f_data f)) + MinRead) :: 64 word) = int (length (f_data f)) + MinRead"
    using sz d by (intro sint64_id) (simp_all add: MinRead_def)
  with Some fl t fo sk rd d show ?thesis
    by (simp add: bw_Bytes_def Let_def File_Seek_def File_ReadAll_def file_ok_def)
qed

text \<open>
  Claim C2. Whatever the sequence of writes and \<open>Sync\<close> calls on a fresh buffer, and
  whatever the operating system answered during those \<open>Sync\<close> calls (so however many
  spills happened, and even if some failed), \<open>Bytes\<close> returns exactly the bytes written,
  in write order, when its own flush, seek and read succeed. The spill threshold is the
  constant \<open>2 ^ 24\<close>. The bound on the length is that of a file size, an \<open>int64\<close>; all of
  \<open>2 ^ 24 - 1\<close>, \<open>2 ^ 24\<close>, \<open>2 ^ 24 + 1\<close> and \<open>10 * 2 ^ 24\<close> are below it.
\<close>

theorem Bytes_returns_written:
  assumes "Write_r R = None" and "Seek_r R = None" and "Read_r R = None"
    and "int (length (written ops)) + 512 < 2 ^ 63"
  shows "fst (bw_Bytes R (bw_run ops bw_zero)) = (written ops, None) \<and> chunk = 2 ^ 24"
proof -
  have z: "bw_ok bw_zero" "content bw_zero = []"
    by (simp_all add: bw_ok_def bw_zero_def content_def)
  from bw_run_content [OF z(1), of ops] z(2)
  have c: "content (bw_run ops bw_zero) = written ops" and ok: "bw_ok (bw_run ops bw_zero)"
    by simp_all
  from bw_Bytes_content [OF ok assms(1-3)] c assms(4) show ?thesis
    by (simp add: chunk_def)
qed

text \<open>A \<open>Sync\<close> on a buffer still in memory spills exactly from the threshold on.\<close>

lemma Sync_spills_iff:
  assumes "tmp bw = None" and "TempFile_r R = Inr nm"
  shows "(tmp (snd (bw_Sync R bw)) \<noteq> None) = (chunk \<le> length (buf bw))"
  using assms
  by (auto simp: bw_Sync_def bw_Flush_def split: prod.splits option.splits)

text \<open>
  An instance with \<open>2 ^ 24\<close> bytes written, a \<open>Sync\<close> that spills them, and two more
  bytes.
\<close>

theorem Bytes_returns_written_witness:
  "fst (bw_Bytes os_ok (bw_run [Write (replicate (2 ^ 24) (CHR ''a'')), Sync os_ok, Write ''bc'', Sync os_ok] bw_zero))
     = (replicate (2 ^ 24) (CHR ''a'') @ ''bc'', None)
   \<and> tmp (snd (bw_Sync os_ok (bw_WriteString (replicate (2 ^ 24) (CHR ''a'')) bw_zero))) \<noteq> None"
proof -
  have "fst (bw_Bytes os_ok (bw_run [Write (replicate (2 ^ 24) (CHR ''a'')), Sync os_ok, Write ''bc'', Sync os_ok] bw_zero))
     = (written [Write (replicate (2 ^ 24) (CHR ''a'')), Sync os_ok, Write ''bc'', Sync os_ok], None)"
    by (rule Bytes_returns_written [THEN conjunct1]) (simp_all add: os_ok_def)
  moreover have "tmp (snd (bw_Sync os_ok (bw_WriteString (replicate (2 ^ 24) (CHR ''a'')) bw_zero))) \<noteq> None"
    by (subst Sync_spills_iff [where nm = "''excelize-1''"])
       (simp_all add: bw_WriteString_def bw_zero_def os_ok_def chunk_def)
  ultimately show ?thesis by simp
qed

text \<open>
  Claim C5 as stated fails: with the buffer at the threshold, no backing store yet and
  \<open>ioutil.TempFile\<close> failing, \<open>Sync\<close> returns no error.
\<close>

theorem Sync_create_failure_counterexample:
  "chunk \<le> length (buf \<lparr>tmp = None, buf = replicate (2 ^ 24) (CHR ''a'')\<rparr>)
   \<and> TempFile_r (os_ok\<lparr>TempFile_r := Inl (Err ''no space left on device'')\<rparr>)
        = Inl (Err ''no space left on device'')
   \<and> fst (bw_Sync (os_ok\<lparr>TempFile_r := Inl (Err ''no space left on device'')\<rparr>)
        \<lparr>tmp = None, buf = replicate (2 ^ 24) (CHR ''a'')\<rparr>) = None"
  by (simp add: bw_Sync_def chunk_def os_ok_def)

text \<open>
  Claim C5, amended. When \<open>Sync\<close> spills (the in-memory region has reached the threshold):
  a failure to create the backing store is not returned, \<open>Sync\<close> returns nil and leaves the
  writer as it was, in memory only; a failure to write the in-memory region to the backing
  store (existing or just created) is returned to the caller; in every case the logical
  content of the buffer is unchanged.
\<close>

theorem Sync_failure_reporting:
  assumes big: "chunk \<le> length (buf bw)" and ok: "bw_ok bw"
  shows "(tmp bw = None \<and> TempFile_r R = Inl e0 \<longrightarrow> bw_Sync R bw = (None, bw))
       \<and> ((tmp bw \<noteq> None \<or> TempFile_r R = Inr nm) \<and> Write_r R = Some (m, e)
            \<longrightarrow> fst (bw_Sync R bw) = Some e)
       \<and> content (snd (bw_Sync R bw)) = content bw"
proof -
  have ne: "buf bw \<noteq> []" using big by (auto simp: chunk_def)
  have a: "tmp bw = None \<and> TempFile_r R = Inl e0 \<longrightarrow> bw_Sync R bw = (None, bw)"
    using big by (auto simp: bw_Sync_def)
  have b: "(tmp bw \<noteq> None \<or> TempFile_r R = Inr nm) \<and> Write_r R = Some (m, e)
            \<longrightarrow> fst (bw_Sync R bw) = Some e"
    using big ok ne
    by (auto simp: bw_Sync_def bw_Flush_def Buffer_WriteTo_def File_Write_def bw_ok_def
        file_ok_def new_File_def Let_def split: option.splits prod.splits sum.splits)
  have c: "content (snd (bw_Sync R bw)) = content bw"
    using bw_Sync_content [OF ok, of R] by (metis prod.collapse)
  from a b c show ?thesis by blast
qed

theorem Sync_failure_reporting_witness:
  "fst (bw_Sync (os_ok\<lparr>Write_r := Some (3, Err ''disk full'')\<rparr>)
         \<lparr>tmp = None, buf = replicate (2 ^ 24) (CHR ''a'')\<rparr>) = Some (Err ''disk full'')
   \<and> content (snd (bw_Sync (os_ok\<lparr>Write_r := Some (3, Err ''disk full'')\<rparr>)
         \<lparr>tmp = None, buf = replicate (2 ^ 24) (CHR ''a'')\<rparr>)) = replicate (2 ^ 24) (CHR ''a'')"
  using Sync_failure_reporting [of "\<lparr>tmp = None, buf = replicate (2 ^ 24) (CHR ''a'')\<rparr>"
      "os_ok\<lparr>Write_r := Some (3, Err ''disk full'')\<rparr>" "Err ''x''" "''excelize-1''" 3 "Err ''disk full''"]
  by (simp add: chunk_def bw_ok_def os_ok_def content_def)

section \<open>Row emission\<close>

lemma bw_WriteString_append: "bw_WriteString p bw = bw\<lparr>buf := buf bw @ p\<rparr>"
  by (simp add: bw_WriteString_def)

lemma writeCell_bytes: "writeCell bw c = bw\<lparr>buf := buf bw @ cell_bytes c\<rparr>"
  by (simp add: writeCell_def cell_bytes_def bw_WriteString_def Let_def)

lemma SetRow_loop_fail:
  assumes "k < length vs"
    and "\<forall>j\<le>k. CoordinatesToCellName X (col + i + int j) row = Inr (nm j)"
    and "\<forall>j<k. fst (encodeCell X (nm j) (vs ! j)) = None"
    and "fst (encodeCell X (nm k) (vs ! k)) = Some e"
  shows "SetRow_loop X col row i vs bw =
           (Some e, bw\<lparr>buf := buf bw
               @ concat (map (\<lambda>j. cell_bytes (snd (encodeCell X (nm j) (vs ! j)))) [0..<k])
               @ ''</row>''\<rparr>)"
  using assms
proof (induction vs arbitrary: k i nm bw)
  case Nil
  then show ?case by simp
next
  case (Cons v vs)
  from Cons.prems(2) have "CoordinatesToCellName X (col + i + int 0) row = Inr (nm 0)"
    by blast
  then have n0: "CoordinatesToCellName X (col + i) row = Inr (nm 0)"
    by simp
  show ?case
  proof (cases k)
    case 0
    with Cons.prems(4) obtain c where "encodeCell X (nm 0) v = (Some e, c)"
      by (cases "encodeCell X (nm 0) v") auto
    with n0 0 show ?thesis by (simp add: bw_WriteString_def)
  next
    case (Suc k')
    from Cons.prems(3) Suc have "fst (encodeCell X (nm 0) v) = None" by force
    then obtain c where c: "encodeCell X (nm 0) v = (None, c)"
      by (cases "encodeCell X (nm 0) v") auto
    have 1: "k' < length vs" using Cons.prems(1) Suc by simp
    have 2: "\<forall>j\<le>k'. CoordinatesToCellName X (col + (i + 1) + int j) row = Inr ((nm \<circ> Suc) j)"
    proof (intro allI impI)
      fix j assume "j \<le> k'"
      then have "Suc j \<le> k" using Suc by simp
      with Cons.prems(2) have "CoordinatesToCellName X (col + i + int (Suc j)) row = Inr (nm (Suc j))"
        by blast
      then show "CoordinatesToCellName X (col + (i + 1) + int j) row = Inr ((nm \<circ> Suc) j)"
        by (simp add: ac_simps)
    qed
    have 3: "\<forall>j<k'. fst (encodeCell X ((nm \<circ> Suc) j) (vs ! j)) = None"
      using Cons.prems(3) Suc by force
    have 4: "fst (encodeCell X ((nm \<circ> Suc) k') (vs ! k')) = Some e"
      using Cons.prems(4) Suc by simp
    have m: "map (\<lambda>j. cell_bytes (snd (encodeCell X (nm j) ((v # vs) ! j)))) [0..<Suc k']
         = cell_bytes c # map (\<lambda>j. cell_bytes (snd (encodeCell X ((nm \<circ> Suc) j) (vs ! j)))) [0..<k']"
      using c by (simp add: upt_rec [of 0] map_Suc_upt [symmetric] del: upt_Suc)
    from Cons.IH [OF 1 2 3 4, of "writeCell bw c"] n0 c Suc m show ?thesis
      by (simp add: writeCell_bytes)
  qed
qed

text \<open>
  Claim C8. When the cell encoder fails on the cell at index \<open>k\<close> of a row (the cells
  before it encode, and the cell names up to \<open>k\<close> are computed), \<open>SetRow\<close> returns the
  encoder's error, and the buffer has grown by exactly the opening row marker, the cells
  before \<open>k\<close> and the closing row marker: nothing of the cell \<open>k\<close> and of those after it is
  written, and no spill is attempted.
\<close>

theorem SetRow_encoder_failure:
  assumes "CellNameToCoordinates X axis = Inr (col, row)"
    and "k < length values"
    and "\<forall>j\<le>k. CoordinatesToCellName X (col + int j) row = Inr (nm j)"
    and "\<forall>j<k. fst (encodeCell X (nm j) (values ! j)) = None"
    and "fst (encodeCell X (nm k) (values ! k)) = Some e"
  shows "SetRow X R axis values sw =
           (Some e, sw\<lparr>rawData := (rawData sw)\<lparr>buf := buf (rawData sw) @ row_open row
               @ concat (map (\<lambda>j. cell_bytes (snd (encodeCell X (nm j) (values ! j)))) [0..<k])
               @ ''</row>''\<rparr>\<rparr>)"
proof -
  have "\<forall>j\<le>k. CoordinatesToCellName X (col + 0 + int j) row = Inr (nm j)"
    using assms(3) by simp
  from SetRow_loop_fail [OF assms(2) this assms(4,5)] assms(1) show ?thesis
    by (simp add: SetRow_def bw_WriteString_def row_open_def)
qed

text \<open>
  Claim C10. When the starting coordinate does not parse, \<open>SetRow\<close> returns the
  addressing error and the stream writer, its buffer included, is exactly as before.
\<close>

theorem SetRow_bad_axis:
  assumes "CellNameToCoordinates X axis = Inl e"
  shows "SetRow X R axis values sw = (Some e, sw)"
  using assms by (simp add: SetRow_def)

lemma ex_A: "ex_CellNameToCoordinates ''A'' = Inl (Err ''invalid cell name'')"
  by (simp add: ex_CellNameToCoordinates_def is_alpha_def byte_in_def)

theorem SetRow_bad_axis_witness:
  "CellNameToCoordinates ex_encoders ''A'' = Inl (Err ''invalid cell name'')
   \<and> SetRow ex_encoders os_ok ''A'' [VInt 1] (ex_sw ''<sheetData>'')
       = (Some (Err ''invalid cell name''), ex_sw ''<sheetData>'')"
  using SetRow_bad_axis [of ex_encoders "''A''" "Err ''invalid cell name''" os_ok "[VInt 1]" "ex_sw ''<sheetData>''"]
  by (simp add: ex_encoders_def ex_A)


lemma ex_A1: "ex_CellNameToCoordinates ''A1'' = Inr (1, 1)"
  by (simp add: ex_CellNameToCoordinates_def is_alpha_def byte_in_def is_digit_def dec_val_def
      col_num_def letter_val_def)

lemma ex_names: "ex_CoordinatesToCellName 1 1 = Inr ''A1''" "ex_CoordinatesToCellName 2 1 = Inr ''B1''"
  "ex_CoordinatesToCellName 3 1 = Inr ''C1''"
  by (simp_all add: ex_CoordinatesToCellName_def col_name.simps Itoa_def nat_dec.simps digit_char_def)

text \<open>A row whose second cell is a timestamp that does not convert.\<close>

theorem SetRow_encoder_failure_witness:
  "SetRow ex_encoders os_ok ''A1''
      [VString ''Name'', VTime \<lparr>t_unix = 0, t_utc = False\<rparr>, VBool True] (ex_sw ''<sheetData>'')
   = (Some (Err ''only UTC time expected''),
      ex_sw ''<sheetData><row r=\"1\"><c r=\"A1\" t=\"str\"><v>Name</v></c></row>'')"
proof -
  define vs where "vs = [VString ''Name'', VTime \<lparr>t_unix = 0, t_utc = False\<rparr>, VBool True]"
  define nm :: "nat \<Rightarrow> string" where "nm = (\<lambda>j. if j = 0 then ''A1'' else ''B1'')"
  have v: "vs ! 0 = VString ''Name''" "vs ! 1 = VTime \<lparr>t_unix = 0, t_utc = False\<rparr>"
    "nm 0 = ''A1''" "nm 1 = ''B1''" "length vs = 3"
    by (simp_all add: vs_def nm_def)
  have enc0: "encodeCell ex_encoders ''A1'' (VString ''Name'')
      = (None, xlsxC_zero\<lparr>c_R := ''A1'', c_T := ''str'', c_V := ''Name''\<rparr>)"
    by (simp add: encodeCell_def unwrapCell_def setCellValFunc_def is_int_val_def set_TVX_def
        ex_encoders_def ex_setCellStr_def xlsxC_zero_def)
  have enc1: "fst (encodeCell ex_encoders ''B1'' (VTime \<lparr>t_unix = 0, t_utc = False\<rparr>))
      = Some (Err ''only UTC time expected'')"
    by (simp add: encodeCell_def unwrapCell_def setCellValFunc_def is_int_val_def
        ex_encoders_def ex_setCellTime_def)
  have esc: "EscapeText ''Name'' = ''Name''"
    by (simp add: EscapeText.simps escRune_def isInCharacterRange_def)
  have cb: "cell_bytes (xlsxC_zero\<lparr>c_R := ''A1'', c_T := ''str'', c_V := ''Name''\<rparr>)
      = ''<c r=\"A1\" t=\"str\"><v>Name</v></c>''"
    by (simp add: cell_bytes_def xlsxC_zero_def esc)
  have names: "\<forall>j\<le>1. CoordinatesToCellName ex_encoders (1 + int j) 1 = Inr (nm j)"
  proof (intro allI impI)
    fix j :: nat assume "j \<le> 1"
    then consider "j = 0" | "j = 1" by linarith
    then show "CoordinatesToCellName ex_encoders (1 + int j) 1 = Inr (nm j)"
      by cases (simp_all add: ex_encoders_def ex_names nm_def)
  qed
  have ro: "row_open 1 = ''<row r=\"1\">''"
    by (simp add: row_open_def Itoa_def nat_dec.simps digit_char_def)
  have c: "CellNameToCoordinates ex_encoders ''A1'' = Inr (1, 1)"
    by (simp add: ex_encoders_def ex_A1)
  have e0: "\<forall>j<1. fst (encodeCell ex_encoders (nm j) (vs ! j)) = None"
    using enc0 v by simp
  have e1: "fst (encodeCell ex_encoders (nm 1) (vs ! 1)) = Some (Err ''only UTC time expected'')"
    using enc1 v by simp
  have l: "1 < length vs"
    using v by simp
  have m: "concat (map (\<lambda>j. cell_bytes (snd (encodeCell ex_encoders (nm j) (vs ! j)))) [0..<1])
      = ''<c r=\"A1\" t=\"str\"><v>Name</v></c>''"
    using v by (simp add: enc0 cb)
  have "SetRow ex_encoders os_ok ''A1'' vs (ex_sw ''<sheetData>'')
   = (Some (Err ''only UTC time expected''),
      ex_sw ''<sheetData><row r=\"1\"><c r=\"A1\" t=\"str\"><v>Name</v></c></row>'')"
    unfolding SetRow_encoder_failure [OF c l names e0 e1, of os_ok "ex_sw ''<sheetData>''"] m ro
    by (simp add: ex_sw_def)
  then show ?thesis by (simp add: vs_def)
qed

section \<open>Finalizing\<close>

lemma bulkAppend_nil: "bulkAppendFields w [] a b = w"
  by (simp add: bulkAppendFields_def)

text \<open>
  Claim C6 fails on the code. With a backing store in use and the write of
  \<open>rawData.Flush\<close> failing, \<open>StreamWriter.Flush\<close> returns the error before
  \<open>defer sw.rawData.Close()\<close> is reached: the temporary file is neither closed nor removed,
  and the in-memory region is not reset.
\<close>

theorem Flush_early_return_leaks:
  "fst (sw_Flush disk_full spilled_sw) = Some (Err ''no space left on device'')
   \<and> tmp (rawData (snd (sw_Flush disk_full spilled_sw)))
       = Some \<lparr>f_name = ''excelize-1'', f_data = ''<sheetData>'', f_off = 11,
                f_closed = False, f_removed = False\<rparr>
   \<and> buf (rawData (snd (sw_Flush disk_full spilled_sw)))
       = ''<row r=\"2\"></row></sheetData></worksheet>''"
  by (simp add: sw_Flush_def spilled_sw_def disk_full_def ex_sw_def os_ok_def bulkAppend_nil
      bw_WriteString_def bw_Flush_def Buffer_WriteTo_def File_Write_def store_at_def Let_def)

section \<open>Decoding what the writer emits\<close>

lemma DecodeRune_ascii: "(of_char c :: nat) < 0x80 \<Longrightarrow> DecodeRune (c # cs) = (of_char c, 1)"
  by simp

lemma valid_text_plain: "list_all plain_char s \<Longrightarrow> valid_text s"
proof (induction s)
  case Nil
  then show ?case by (simp add: valid_text.simps)
next
  case (Cons c s)
  then have "(of_char c :: nat) < 0x80" "0x20 \<le> (of_char c :: nat)"
    by (auto simp: plain_char_def byte_in_def)
  with Cons show ?case
    by (simp add: valid_text.simps(2) DecodeRune_ascii isInCharacterRange_def RuneError_def
        del: DecodeRune.simps)
qed

lemma text_go_plain:
  "list_all plain_char s \<Longrightarrow>
     text_go rd (Some (CHR 0x22)) b0 b1 acc (s @ CHR 0x22 # rest) = Inr (acc @ s, rest)"
proof (induction s arbitrary: b0 b1 acc)
  case Nil
  show ?case by (simp add: text_go.simps(2))
next
  case (Cons c s)
  then have c: "c \<noteq> CHR ''>''" "c \<noteq> CHR ''<''" "c \<noteq> CHR 0x22" "c \<noteq> CHR ''&''"
    "c \<noteq> CHR 0x0D" "c \<noteq> CHR 0x0A"
    by (auto simp: plain_char_def byte_in_def)
  from Cons have "list_all plain_char s" by simp
  from Cons.IH [OF this] c show ?case
    by (simp add: text_go.simps(2))
qed

lemma xml_text_plain:
  "list_all plain_char s \<Longrightarrow> xml_text rd (Some (CHR 0x22)) (s @ CHR 0x22 # rest) = Inr (s, rest)"
  by (simp add: xml_text_def text_go_plain valid_text_plain)

lemma mod_shift:
  fixes x :: nat
  assumes "k * m \<le> x" and "x < k * m + m"
  shows "x mod m = x - k * m"
proof -
  define y where "y = x - k * m"
  have x: "x = y + m * k" and y: "y < m" using assms by (simp_all add: y_def mult.commute)
  have "x mod m = y mod m" unfolding x by simp
  with y show ?thesis by (simp add: y_def)
qed

lemma low6_ge_32: "byte_in 0xA0 0xBF c \<Longrightarrow> 32 \<le> low6 c"
  using mod_shift [of 2 64 "of_char c"] by (auto simp: byte_in_def low6_def)

lemma low6_ge_16: "byte_in 0x90 0xBF c \<Longrightarrow> 16 \<le> low6 c"
  using mod_shift [of 2 64 "of_char c"] by (auto simp: byte_in_def low6_def)

lemma mod32_ge: "(194::nat) \<le> x \<Longrightarrow> x \<le> 223 \<Longrightarrow> 2 \<le> x mod 32"
  using mod_shift [of 6 32 x] by simp

lemma mod16_ge: "(224::nat) < x \<Longrightarrow> x \<le> 239 \<Longrightarrow> 1 \<le> x mod 16"
  using mod_shift [of 14 16 x] by simp

lemma mod8_ge: "(240::nat) < x \<Longrightarrow> x \<le> 244 \<Longrightarrow> 1 \<le> x mod 8"
  using mod_shift [of 30 8 x] by simp

lemma byte_in_ge: "byte_in lo hi c \<Longrightarrow> lo \<le> (of_char c :: nat)"
  by (simp add: byte_in_def)

lemma DecodeRune_cases:
  assumes d: "DecodeRune (c # cs) = (r, w)" and ne: "\<not> (r = RuneError \<and> w = 1)"
  shows "((of_char c :: nat) < 0x80 \<and> r = of_char c \<and> w = 1)
       \<or> (0x80 \<le> r \<and> 2 \<le> w \<and> w \<le> length (c # cs)
            \<and> list_all (\<lambda>b. 0x80 \<le> (of_char b :: nat)) (take w (c # cs)))"
proof -
  let ?b = "of_char c :: nat"
  consider (a) "?b < 0x80" | (b2) "0xC2 \<le> ?b" "?b \<le> 0xDF" | (b3) "0xE0 \<le> ?b" "?b \<le> 0xEF"
    | (b4) "0xF0 \<le> ?b" "?b \<le> 0xF4" | (x) "0x80 \<le> ?b" "?b < 0xC2" | (y) "0xF4 < ?b"
    by linarith
  then show ?thesis
  proof cases
    case a
    with d show ?thesis by simp
  next
    case b2
    then have "DecodeRune (c # cs) =
        (case cs of
           c1 # _ \<Rightarrow> if byte_in 0x80 0xBF c1 then ((?b mod 32) * 64 + low6 c1, 2) else (RuneError, 1)
         | _ \<Rightarrow> (RuneError, 1))"
      by (simp add: Let_def)
    with d ne obtain c1 cs' where cs: "cs = c1 # cs'" and c1: "byte_in 0x80 0xBF c1"
      and r: "r = (?b mod 32) * 64 + low6 c1" and w: "w = 2"
      by (cases cs) (auto split: if_splits)
    have "128 \<le> r" using mod32_ge [OF b2] unfolding r by simp
    with cs c1 w b2 show ?thesis by (simp add: byte_in_def)
  next
    case b3
    then have "DecodeRune (c # cs) =
        (case cs of
           c1 # c2 # _ \<Rightarrow>
             if byte_in (if ?b = 0xE0 then 0xA0 else 0x80) (if ?b = 0xED then 0x9F else 0xBF) c1
                \<and> byte_in 0x80 0xBF c2
             then ((?b mod 16) * 4096 + low6 c1 * 64 + low6 c2, 3) else (RuneError, 1)
         | _ \<Rightarrow> (RuneError, 1))"
      by (simp add: Let_def)
    with d ne obtain c1 c2 cs' where cs: "cs = c1 # c2 # cs'"
      and c1: "byte_in (if ?b = 0xE0 then 0xA0 else 0x80) (if ?b = 0xED then 0x9F else 0xBF) c1"
      and c2: "byte_in 0x80 0xBF c2"
      and r: "r = (?b mod 16) * 4096 + low6 c1 * 64 + low6 c2" and w: "w = 3"
      by (cases cs; cases "tl cs") (auto split: if_splits)
    have "128 \<le> r"
    proof (cases "?b = 0xE0")
      case True
      with c1 have "byte_in 0xA0 0xBF c1" by (auto simp: byte_in_def)
      from low6_ge_32 [OF this] show ?thesis unfolding r by simp
    next
      case False
      with b3 have "224 < ?b" by simp
      from mod16_ge [OF this b3(2)] show ?thesis unfolding r by simp
    qed
    moreover have "0x80 \<le> (of_char c1 :: nat)" using c1 by (auto simp: byte_in_def split: if_splits)
    ultimately show ?thesis using cs c2 w b3 by (simp add: byte_in_def)
  next
    case b4
    then have "DecodeRune (c # cs) =
        (case cs of
           c1 # c2 # c3 # _ \<Rightarrow>
             if byte_in (if ?b = 0xF0 then 0x90 else 0x80) (if ?b = 0xF4 then 0x8F else 0xBF) c1
                \<and> byte_in 0x80 0xBF c2 \<and> byte_in 0x80 0xBF c3
             then ((?b mod 8) * 262144 + low6 c1 * 4096 + low6 c2 * 64 + low6 c3, 4)
             else (RuneError, 1)
         | _ \<Rightarrow> (RuneError, 1))"
      by (simp add: Let_def)
    with d ne obtain c1 c2 c3 cs' where cs: "cs = c1 # c2 # c3 # cs'"
      and c1: "byte_in (if ?b = 0xF0 then 0x90 else 0x80) (if ?b = 0xF4 then 0x8F else 0xBF) c1"
      and c2: "byte_in 0x80 0xBF c2" and c3: "byte_in 0x80 0xBF c3"
      and r: "r = (?b mod 8) * 262144 + low6 c1 * 4096 + low6 c2 * 64 + low6 c3" and w: "w = 4"
      by (cases cs; cases "tl cs"; cases "tl (tl cs)") (auto split: if_splits)
    have "128 \<le> r"
    proof (cases "?b = 0xF0")
      case True
      with c1 have "byte_in 0x90 0xBF c1" by (auto simp: byte_in_def)
      from low6_ge_16 [OF this] show ?thesis unfolding r by simp
    next
      case False
      with b4 have "240 < ?b" by simp
      from mod8_ge [OF this b4(2)] show ?thesis unfolding r by simp
    qed
    moreover have "0x80 \<le> (of_char c1 :: nat)" using c1 by (auto simp: byte_in_def split: if_splits)
    ultimately show ?thesis using cs c2 c3 w b4 by (simp add: byte_in_def)
  next
    case x
    with d ne show ?thesis by (simp add: Let_def)
  next
    case y
    with d ne show ?thesis by (simp add: Let_def)
  qed
qed

lemma text_go_inert:
  "list_all inert bs \<Longrightarrow>
     \<exists>c0 c1. text_go rd None b0 b1 acc (bs @ X) = text_go rd None c0 c1 (acc @ bs) X"
proof (induction bs arbitrary: b0 b1 acc)
  case Nil
  show ?case by auto
next
  case (Cons b bs)
  then have b: "inert b" and bs: "list_all inert bs" by simp_all
  from b have s: "text_go rd None b0 b1 acc ((b # bs) @ X) = text_go rd None b1 b (acc @ [b]) (bs @ X)"
    by (simp add: text_go.simps(2) inert_def)
  from Cons.IH [OF bs, of b1 b "acc @ [b]"] s show ?case by simp
qed

lemma high_inert: "0x80 \<le> (of_char b :: nat) \<Longrightarrow> inert b"
  by (auto simp: inert_def)

lemma entity_escapes:
  "entity rd (''#34;'' @ Y) = Inr ([CHR 0x22], Y)"
  "entity rd (''#39;'' @ Y) = Inr ([CHR 0x27], Y)"
  "entity rd (''amp;'' @ Y) = Inr (''&'', Y)"
  "entity rd (''lt;'' @ Y) = Inr (''<'', Y)"
  "entity rd (''gt;'' @ Y) = Inr (''>'', Y)"
  "entity rd (''#x9;'' @ Y) = Inr ([CHR 0x09], Y)"
  "entity rd (''#xA;'' @ Y) = Inr ([CHR 0x0A], Y)"
  "entity rd (''#xD;'' @ Y) = Inr ([CHR 0x0D], Y)"
  by (simp_all add: entity_def char_ref_def named_ref_def name_byte_def isNameByte_def byte_in_def
      hex_digit_def hex_val_def num_val_def EncodeRune_def Let_def char_of_eq_iff)

lemma text_go_amp:
  "entity rd Y = Inr (t, Z) \<Longrightarrow>
     text_go rd None b0 b1 acc (CHR ''&'' # Y) = text_go rd None (CHR 0x00) (CHR 0x00) (acc @ t) Z"
  by (simp add: text_go.simps(2))

lemma of_char_eq: "(of_char c :: nat) = of_char d \<Longrightarrow> c = d"
  by (rule of_char_eqI)

lemma escRune_ascii:
  assumes "(of_char c :: nat) < 0x80" and "isInCharacterRange (of_char c)"
  shows "(c = CHR 0x22 \<and> escRune (of_char c) 1 [c] = ''&#34;'')
       \<or> (c = CHR 0x27 \<and> escRune (of_char c) 1 [c] = ''&#39;'')
       \<or> (c = CHR ''&'' \<and> escRune (of_char c) 1 [c] = ''&amp;'')
       \<or> (c = CHR ''<'' \<and> escRune (of_char c) 1 [c] = ''&lt;'')
       \<or> (c = CHR ''>'' \<and> escRune (of_char c) 1 [c] = ''&gt;'')
       \<or> (c = CHR 0x09 \<and> escRune (of_char c) 1 [c] = ''&#x9;'')
       \<or> (c = CHR 0x0A \<and> escRune (of_char c) 1 [c] = ''&#xA;'')
       \<or> (c = CHR 0x0D \<and> escRune (of_char c) 1 [c] = ''&#xD;'')
       \<or> (inert c \<and> escRune (of_char c) 1 [c] = [c])"
proof -
  have e: "(of_char c :: nat) = n \<Longrightarrow> n = of_char d \<Longrightarrow> c = d" for n d
    using of_char_eq by blast
  have i: "inert c" if "(of_char c :: nat) \<noteq> 0x3C" "(of_char c :: nat) \<noteq> 0x26"
    "(of_char c :: nat) \<noteq> 0x0D" "(of_char c :: nat) \<noteq> 0x0A" "(of_char c :: nat) \<noteq> 0x3E"
    using that by (auto simp: inert_def)
  show ?thesis
  proof (cases "(of_char c :: nat) \<in> {0x22, 0x27, 0x26, 0x3C, 0x3E, 0x09, 0x0A, 0x0D}")
    case True
    then consider "(of_char c :: nat) = 0x22" | "(of_char c :: nat) = 0x27" | "(of_char c :: nat) = 0x26"
      | "(of_char c :: nat) = 0x3C" | "(of_char c :: nat) = 0x3E" | "(of_char c :: nat) = 0x09"
      | "(of_char c :: nat) = 0x0A" | "(of_char c :: nat) = 0x0D" by auto
    then show ?thesis
    proof cases
      case 1 then have "c = CHR 0x22" by (intro e [OF 1]) simp
      with 1 show ?thesis by (simp add: escRune_def)
    next
      case 2 then have "c = CHR 0x27" by (intro e [OF 2]) simp
      with 2 show ?thesis by (simp add: escRune_def)
    next
      case 3 then have "c = CHR ''&''" by (intro e [OF 3]) simp
      with 3 show ?thesis by (simp add: escRune_def)
    next
      case 4 then have "c = CHR ''<''" by (intro e [OF 4]) simp
      with 4 show ?thesis by (simp add: escRune_def)
    next
      case 5 then have "c = CHR ''>''" by (intro e [OF 5]) simp
      with 5 show ?thesis by (simp add: escRune_def)
    next
      case 6 then have "c = CHR 0x09" by (intro e [OF 6]) simp
      with 6 show ?thesis by (simp add: escRune_def)
    next
      case 7 then have "c = CHR 0x0A" by (intro e [OF 7]) simp
      with 7 show ?thesis by (simp add: escRune_def)
    next
      case 8 then have "c = CHR 0x0D" by (intro e [OF 8]) simp
      with 8 show ?thesis by (simp add: escRune_def)
    qed
  next
    case False
    then have "inert c" by (intro i) auto
    moreover have "escRune (of_char c) 1 [c] = [c]"
      using False assms by (auto simp: escRune_def)
    ultimately show ?thesis by blast
  qed
qed

lemma text_go_escaped:
  "valid_text s \<Longrightarrow>
     text_go rd None b0 b1 acc (EscapeText s @ CHR ''<'' # rest) = Inr (acc @ s, CHR ''<'' # rest)"
proof (induction s arbitrary: b0 b1 acc rule: length_induct)
  case (1 s)
  show ?case
  proof (cases s)
    case Nil
    then show ?thesis by (simp add: EscapeText.simps(1) text_go.simps(2))
  next
    case (Cons c cs)
    obtain r w where d: "DecodeRune (c # cs) = (r, w)" by (cases "DecodeRune (c # cs)")
    from "1.prems" Cons d have v: "\<not> (r = RuneError \<and> w = 1)" "isInCharacterRange r"
      "valid_text (drop w (c # cs))"
      by (simp_all add: valid_text.simps(2) del: DecodeRune.simps)
    have E: "EscapeText (c # cs) = escRune r w (take w (c # cs)) @ EscapeText (drop w (c # cs))"
      using d by (simp add: EscapeText.simps(2) del: DecodeRune.simps)
    have IH: "text_go rd None c0 c1 a (EscapeText (drop w (c # cs)) @ CHR ''<'' # rest)
        = Inr (a @ drop w (c # cs), CHR ''<'' # rest)" if "1 \<le> w" for c0 c1 a
      using "1.IH" v(3) that Cons by simp
    from DecodeRune_cases [OF d v(1)] show ?thesis
    proof
      assume a: "(of_char c :: nat) < 0x80 \<and> r = of_char c \<and> w = 1"
      then have w: "w = 1" and r: "r = of_char c" by simp_all
      have dr: "drop w (c # cs) = cs" "take w (c # cs) = [c]" using w by simp_all
      have ih: "text_go rd None c0 c1 a (EscapeText cs @ CHR ''<'' # rest)
          = Inr (a @ cs, CHR ''<'' # rest)" for c0 c1 a
        using IH [of c0 c1 a] w dr by simp
      have amp_case: "text_go rd None b0 b1 acc (EscapeText s @ CHR ''<'' # rest)
          = Inr (acc @ s, CHR ''<'' # rest)"
        if e1: "escRune r w [c] = CHR ''&'' # e" and e2: "\<And>Y. entity rd (e @ Y) = Inr ([c], Y)" for e
      proof -
        have "EscapeText s @ CHR ''<'' # rest = CHR ''&'' # (e @ EscapeText cs @ CHR ''<'' # rest)"
          using E dr e1 Cons by simp
        moreover have "text_go rd None b0 b1 acc (CHR ''&'' # (e @ EscapeText cs @ CHR ''<'' # rest))
            = text_go rd None (CHR 0x00) (CHR 0x00) (acc @ [c]) (EscapeText cs @ CHR ''<'' # rest)"
          by (rule text_go_amp) (rule e2)
        ultimately show ?thesis using ih [of "CHR 0x00" "CHR 0x00" "acc @ [c]"] Cons by simp
      qed
      from escRune_ascii [of c] a v(2) r
      consider (q) "c = CHR 0x22" "escRune r w [c] = ''&#34;''"
        | (ap) "c = CHR 0x27" "escRune r w [c] = ''&#39;''"
        | (am) "c = CHR ''&''" "escRune r w [c] = ''&amp;''"
        | (lt) "c = CHR ''<''" "escRune r w [c] = ''&lt;''"
        | (gt) "c = CHR ''>''" "escRune r w [c] = ''&gt;''"
        | (tb) "c = CHR 0x09" "escRune r w [c] = ''&#x9;''"
        | (nl) "c = CHR 0x0A" "escRune r w [c] = ''&#xA;''"
        | (cr) "c = CHR 0x0D" "escRune r w [c] = ''&#xD;''"
        | (raw) "inert c" "escRune r w [c] = [c]"
        using w by auto
      then show ?thesis
      proof cases
        case q
        have "escRune r w [c] = CHR ''&'' # ''#34;''" using q by simp
        moreover have "\<And>Y. entity rd (''#34;'' @ Y) = Inr ([c], Y)"
          using q(1) entity_escapes(1) [of rd] by simp
        ultimately show ?thesis by (rule amp_case)
      next
        case ap
        have "escRune r w [c] = CHR ''&'' # ''#39;''" using ap by simp
        moreover have "\<And>Y. entity rd (''#39;'' @ Y) = Inr ([c], Y)"
          using ap(1) entity_escapes(2) [of rd] by simp
        ultimately show ?thesis by (rule amp_case)
      next
        case am
        have "escRune r w [c] = CHR ''&'' # ''amp;''" using am by simp
        moreover have "\<And>Y. entity rd (''amp;'' @ Y) = Inr ([c], Y)"
          using am(1) entity_escapes(3) [of rd] by simp
        ultimately show ?thesis by (rule amp_case)
      next
        case lt
        have "escRune r w [c] = CHR ''&'' # ''lt;''" using lt by simp
        moreover have "\<And>Y. entity rd (''lt;'' @ Y) = Inr ([c], Y)"
          using lt(1) entity_escapes(4) [of rd] by simp
        ultimately show ?thesis by (rule amp_case)
      next
        case gt
        have "escRune r w [c] = CHR ''&'' # ''gt;''" using gt by simp
        moreover have "\<And>Y. entity rd (''gt;'' @ Y) = Inr ([c], Y)"
          using gt(1) entity_escapes(5) [of rd] by simp
        ultimately show ?thesis by (rule amp_case)
      next
        case tb
        have "escRune r w [c] = CHR ''&'' # ''#x9;''" using tb by simp
        moreover have "\<And>Y. entity rd (''#x9;'' @ Y) = Inr ([c], Y)"
          using tb(1) entity_escapes(6) [of rd] by simp
        ultimately show ?thesis by (rule amp_case)
      next
        case nl
        have "escRune r w [c] = CHR ''&'' # ''#xA;''" using nl by simp
        moreover have "\<And>Y. entity rd (''#xA;'' @ Y) = Inr ([c], Y)"
          using nl(1) entity_escapes(7) [of rd] by simp
        ultimately show ?thesis by (rule amp_case)
      next
        case cr
        have "escRune r w [c] = CHR ''&'' # ''#xD;''" using cr by simp
        moreover have "\<And>Y. entity rd (''#xD;'' @ Y) = Inr ([c], Y)"
          using cr(1) entity_escapes(8) [of rd] by simp
        ultimately show ?thesis by (rule amp_case)
      next
        case raw
        from text_go_inert [of "[c]" rd b0 b1 acc "EscapeText cs @ CHR ''<'' # rest"] raw(1)
        obtain c0 c1 where
          "text_go rd None b0 b1 acc ([c] @ EscapeText cs @ CHR ''<'' # rest)
             = text_go rd None c0 c1 (acc @ [c]) (EscapeText cs @ CHR ''<'' # rest)"
          by auto
        with ih [of c0 c1 "acc @ [c]"] show ?thesis unfolding Cons E dr raw(2) by simp
      qed
    next
      assume b: "0x80 \<le> r \<and> 2 \<le> w \<and> w \<le> length (c # cs)
            \<and> list_all (\<lambda>b. 0x80 \<le> (of_char b :: nat)) (take w (c # cs))"
      then have ine: "list_all inert (take w (c # cs))"
        by (auto simp: list_all_iff high_inert)
      have raw: "escRune r w (take w (c # cs)) = take w (c # cs)"
        using b v(2) by (auto simp: escRune_def)
      from text_go_inert [OF ine, of rd b0 b1 acc "EscapeText (drop w (c # cs)) @ CHR ''<'' # rest"]
      obtain c0 c1 where
        "text_go rd None b0 b1 acc (take w (c # cs) @ EscapeText (drop w (c # cs)) @ CHR ''<'' # rest)
           = text_go rd None c0 c1 (acc @ take w (c # cs))
               (EscapeText (drop w (c # cs)) @ CHR ''<'' # rest)"
        by auto
      with IH [of c0 c1 "acc @ take w (c # cs)"] b show ?thesis
        unfolding Cons E raw by simp
    qed
  qed
qed

lemma ptoks_simps [simp]: "ptoks [] r = r" "ptoks (t # ts) r = ptok t (ptoks ts r)"
  "ptoks (ts @ us) r = ptoks ts (ptoks us r)"
  by (simp_all add: ptoks_def ptok_def)

lemmas name_eval = nsname_def read_name_def split_name_def isName_def name_first_def
  name_second_def name_byte_def isNameByte_def byte_in_def Let_def

lemma nsname_attr:
  "nsname rd (''r='' @ X) = Inr (Some (xnm ''r''), CHR ''='' # X)"
  "nsname rd (''s='' @ X) = Inr (Some (xnm ''s''), CHR ''='' # X)"
  "nsname rd (''t='' @ X) = Inr (Some (xnm ''t''), CHR ''='' # X)"
  "nsname rd (''xml:space='' @ X) = Inr (Some \<lparr>n_Space = ''xml'', n_Local = ''space''\<rparr>, CHR ''='' # X)"
  by (simp_all add: name_eval xnm_def)

lemma attrs_go_r:
  "list_all plain_char v \<Longrightarrow>
     attrs_go rd acc ('' r=\"'' @ v @ CHR 0x22 # rest) = attrs_go rd (acc @ [xat ''r'' v]) rest"
  using nsname_attr(1) [of rd "CHR 0x22 # v @ CHR 0x22 # rest"]
  by (simp add: attrs_go.simps(2) is_space_def xml_text_plain xat_def)

lemma attrs_go_s:
  "list_all plain_char v \<Longrightarrow>
     attrs_go rd acc ('' s=\"'' @ v @ CHR 0x22 # rest) = attrs_go rd (acc @ [xat ''s'' v]) rest"
  using nsname_attr(2) [of rd "CHR 0x22 # v @ CHR 0x22 # rest"]
  by (simp add: attrs_go.simps(2) is_space_def xml_text_plain xat_def)

lemma attrs_go_t:
  "list_all plain_char v \<Longrightarrow>
     attrs_go rd acc ('' t=\"'' @ v @ CHR 0x22 # rest) = attrs_go rd (acc @ [xat ''t'' v]) rest"
  using nsname_attr(3) [of rd "CHR 0x22 # v @ CHR 0x22 # rest"]
  by (simp add: attrs_go.simps(2) is_space_def xml_text_plain xat_def)

lemma attrs_go_space:
  "list_all plain_char v \<Longrightarrow>
     attrs_go rd acc ('' xml:space=\"'' @ v @ CHR 0x22 # rest)
       = attrs_go rd (acc @ [\<lparr>a_Name = \<lparr>n_Space = ''xml'', n_Local = ''space''\<rparr>, a_Value = v\<rparr>]) rest"
  using nsname_attr(4) [of rd "CHR 0x22 # v @ CHR 0x22 # rest"]
  by (simp add: attrs_go.simps(2) is_space_def xml_text_plain)

lemma attrs_go_close: "attrs_go rd acc (CHR ''>'' # rest) = Inr (acc, False, rest)"
  by (simp add: attrs_go.simps(2) is_space_def)

lemma nat_dec_digits: "nat_dec n \<noteq> [] \<and> list_all (byte_in 0x30 0x39) (nat_dec n)"
proof (induction n rule: nat_dec.induct)
  case (1 n)
  have d: "byte_in 0x30 0x39 (digit_char k)" if "k < 10" for k
  proof -
    from that have "k \<in> {0, 1, 2, 3, 4, 5, 6, 7, 8, 9}" by auto
    then show ?thesis by (auto simp: digit_char_def byte_in_def)
  qed
  show ?case
  proof (cases "n < 10")
    case True
    then show ?thesis using d [of n] by (simp add: nat_dec.simps [of n])
  next
    case False
    with "1.IH" d [of "n mod 10"] show ?thesis by (simp add: nat_dec.simps [of n])
  qed
qed

lemma digit_plain: "byte_in 0x30 0x39 c \<Longrightarrow> plain_char c"
  by (auto simp: plain_char_def byte_in_def)

lemma plain_Itoa: "list_all plain_char (Itoa i)"
proof -
  have "list_all plain_char (nat_dec n)" for n
    using nat_dec_digits [of n] by (auto simp: list_all_iff digit_plain)
  moreover have "plain_char (CHR ''-'')" by (simp add: plain_char_def byte_in_def)
  ultimately show ?thesis by (simp add: Itoa_def)
qed



lemma cell_bytes_split:
  "cell_bytes c = ''<c'' @ attr_bytes c
     @ (if c_V c \<noteq> [] then ''<v>'' @ EscapeText (c_V c) @ ''</v>'' else []) @ ''</c>''"
  by (simp add: cell_bytes_def attr_bytes_def)

lemma attrs_go_cell:
  assumes "cell_ok c"
  shows "attrs_go rd [] (attr_bytes c @ rest) = Inr (cell_attrs c, False, rest)"
proof -
  from assms have R: "list_all plain_char (c_R c)" and T: "list_all plain_char (c_T c)"
    and X: "a_Value (c_XMLSpace c) = []
          \<or> n_Local (a_Name (c_XMLSpace c)) = ''space'' \<and> list_all plain_char (a_Value (c_XMLSpace c))"
    by (simp_all add: cell_ok_def)
  let ?a1 = "if a_Value (c_XMLSpace c) \<noteq> []
      then [\<lparr>a_Name = \<lparr>n_Space = ''xml'', n_Local = ''space''\<rparr>, a_Value = a_Value (c_XMLSpace c)\<rparr>]
      else []"
  let ?t = "(if c_T c \<noteq> [] then '' t=\"'' @ c_T c @ ''\"'' else []) @ ''>'' @ rest"
  let ?s = "(if c_S c \<noteq> 0 then '' s=\"'' @ Itoa (c_S c) @ ''\"'' else []) @ ?t"
  let ?r = "'' r=\"'' @ c_R c @ ''\"'' @ ?s"
  have 1: "attrs_go rd [] (attr_bytes c @ rest) = attrs_go rd ?a1 ?r"
  proof (cases "a_Value (c_XMLSpace c) = []")
    case True
    then show ?thesis by (simp add: attr_bytes_def split del: if_split)
  next
    case False
    with X have l: "n_Local (a_Name (c_XMLSpace c)) = ''space''"
      and p: "list_all plain_char (a_Value (c_XMLSpace c))" by simp_all
    from False l attrs_go_space [where v = "a_Value (c_XMLSpace c)" and rd = rd and acc = "[]"
        and rest = ?r, OF p]
    show ?thesis by (simp add: attr_bytes_def split del: if_split)
  qed
  have 2: "attrs_go rd ?a1 ?r = attrs_go rd (?a1 @ [xat ''r'' (c_R c)]) ?s"
    using attrs_go_r [where v = "c_R c" and rd = rd and acc = ?a1 and rest = ?s, OF R]
    by (simp split del: if_split)
  have 3: "attrs_go rd (?a1 @ [xat ''r'' (c_R c)]) ?s
      = attrs_go rd (?a1 @ [xat ''r'' (c_R c)] @ (if c_S c \<noteq> 0 then [xat ''s'' (Itoa (c_S c))] else [])) ?t"
  proof (cases "c_S c = 0")
    case True
    then show ?thesis by (simp split del: if_split)
  next
    case False
    with attrs_go_s [where v = "Itoa (c_S c)" and rd = rd and acc = "?a1 @ [xat ''r'' (c_R c)]"
        and rest = ?t, OF plain_Itoa]
    show ?thesis by (simp split del: if_split)
  qed
  have 4: "attrs_go rd (?a1 @ [xat ''r'' (c_R c)] @ (if c_S c \<noteq> 0 then [xat ''s'' (Itoa (c_S c))] else [])) ?t
      = Inr (cell_attrs c, False, rest)"
  proof (cases "c_T c = []")
    case True
    then show ?thesis by (simp add: attrs_go_close cell_attrs_def split del: if_split)
  next
    case False
    with attrs_go_t [where v = "c_T c" and rd = rd and rest = "CHR ''>'' # rest" and acc =
        "?a1 @ [xat ''r'' (c_R c)] @ (if c_S c \<noteq> 0 then [xat ''s'' (Itoa (c_S c))] else [])", OF T]
    show ?thesis by (simp add: attrs_go_close cell_attrs_def split del: if_split)
  qed
  from 1 2 3 4 show ?thesis by simp
qed

lemma attr_bytes_head: "\<exists>t. attr_bytes c = CHR '' '' # t"
  by (simp add: attr_bytes_def)

lemma rawToken_cell_start:
  assumes "cell_ok c"
  shows "rawToken rd (''<c'' @ attr_bytes c @ rest)
     = Inr (StartElement (xnm ''c'') (cell_attrs c), rest, None)"
proof -
  obtain t where t: "attr_bytes c = CHR '' '' # t" using attr_bytes_head by blast
  have n: "nsname rd (CHR ''c'' # CHR '' '' # t @ rest) = Inr (Some (xnm ''c''), CHR '' '' # t @ rest)"
    by (simp add: name_eval xnm_def)
  from attrs_go_cell [OF assms, of rd rest] t
  have a: "attrs_go rd [] (CHR '' '' # t @ rest) = Inr (cell_attrs c, False, rest)" by simp
  show ?thesis unfolding t using n a by (simp add: rawToken_def)
qed

lemma rawToken_v_start:
  "rawToken rd (''<v>'' @ Y) = Inr (StartElement (xnm ''v'') [], Y, None)"
  by (simp add: rawToken_def name_eval xnm_def attrs_go.simps(2) is_space_def)

lemma rawToken_row_start:
  "rawToken rd (row_open row @ Y) = Inr (StartElement (xnm ''row'') [xat ''r'' (Itoa row)], Y, None)"
proof -
  have n: "nsname rd (''row '' @ Z) = Inr (Some (xnm ''row''), CHR '' '' # Z)" for Z
    by (simp add: name_eval xnm_def)
  have a: "attrs_go rd [] ('' r=\"'' @ Itoa row @ CHR 0x22 # CHR ''>'' # Y)
      = Inr ([xat ''r'' (Itoa row)], False, Y)"
    using attrs_go_r [where v = "Itoa row" and rd = rd and acc = "[]" and rest = "CHR ''>'' # Y",
        OF plain_Itoa]
    by (simp add: attrs_go_close)
  from n [of "''r=\"'' @ Itoa row @ CHR 0x22 # CHR ''>'' # Y"] a show ?thesis
    by (simp add: rawToken_def row_open_def)
qed

lemma rawToken_end:
  "rawToken rd (''</v>'' @ Y) = Inr (EndElement (xnm ''v''), Y, None)"
  "rawToken rd (''</c>'' @ Y) = Inr (EndElement (xnm ''c''), Y, None)"
  "rawToken rd (''</row>'' @ Y) = Inr (EndElement (xnm ''row''), Y, None)"
  by (simp_all add: rawToken_def name_eval xnm_def is_space_def)

lemma EscapeText_head:
  assumes "valid_text (c # cs)"
  shows "\<exists>b bs. EscapeText (c # cs) = b # bs \<and> b \<noteq> CHR ''<''"
proof -
  obtain r w where d: "DecodeRune (c # cs) = (r, w)" by (cases "DecodeRune (c # cs)")
  from assms d have v: "\<not> (r = RuneError \<and> w = 1)" "isInCharacterRange r"
    by (simp_all add: valid_text.simps(2) del: DecodeRune.simps)
  have E: "EscapeText (c # cs) = escRune r w (take w (c # cs)) @ EscapeText (drop w (c # cs))"
    using d by (simp add: EscapeText.simps(2) del: DecodeRune.simps)
  from DecodeRune_cases [OF d v(1)] show ?thesis
  proof
    assume a: "(of_char c :: nat) < 0x80 \<and> r = of_char c \<and> w = 1"
    with escRune_ascii [of c] v(2) have "\<exists>b bs. escRune r w [c] = b # bs \<and> b \<noteq> CHR ''<''"
      by (auto simp: inert_def)
    with a show ?thesis unfolding E by auto
  next
    assume b: "0x80 \<le> r \<and> 2 \<le> w \<and> w \<le> length (c # cs)
            \<and> list_all (\<lambda>b. 0x80 \<le> (of_char b :: nat)) (take w (c # cs))"
    then have raw: "escRune r w (take w (c # cs)) = take w (c # cs)"
      using v(2) by (auto simp: escRune_def)
    from b have "take w (c # cs) = c # take (w - 1) cs" by (cases w) auto
    moreover from b have "0x80 \<le> (of_char c :: nat)" by (cases w) auto
    then have "c \<noteq> CHR ''<''" by auto
    ultimately show ?thesis unfolding E raw by simp
  qed
qed

lemma rawToken_chardata:
  assumes "valid_text s" and "s \<noteq> []"
  shows "rawToken rd (EscapeText s @ CHR ''<'' # Y) = Inr (CharData s, CHR ''<'' # Y, None)"
proof -
  from assms obtain c cs where s: "s = c # cs" by (cases s) auto
  from EscapeText_head [of c cs] assms(1) s obtain b bs where
    e: "EscapeText s = b # bs" "b \<noteq> CHR ''<''" by auto
  have "xml_text rd None (EscapeText s @ CHR ''<'' # Y) = Inr (s, CHR ''<'' # Y)"
    using text_go_escaped [OF assms(1), of rd "CHR 0x00" "CHR 0x00" "[]" Y] assms(1)
    by (simp add: xml_text_def)
  with e show ?thesis by (simp add: rawToken_def)
qed

lemma Tokens_start:
  "rawToken rd inp = Inr (StartElement n as, rest, None) \<Longrightarrow>
     Tokens rd stk None inp = ptok (StartElement n as) (Tokens rd (n # stk) None rest)"
  by (cases inp) (simp_all add: Tokens.simps rawToken_def)

lemma Tokens_end:
  "rawToken rd inp = Inr (EndElement n, rest, None) \<Longrightarrow>
     Tokens rd (n # stk) None inp = ptok (EndElement n) (Tokens rd stk None rest)"
  by (cases inp) (simp_all add: Tokens.simps rawToken_def)

lemma Tokens_chardata:
  "rawToken rd inp = Inr (CharData d, rest, None) \<Longrightarrow>
     Tokens rd stk None inp = ptok (CharData d) (Tokens rd stk None rest)"
  by (cases inp) (simp_all add: Tokens.simps rawToken_def)

lemma Tokens_cell:
  assumes "cell_ok c"
  shows "Tokens rd stk None (cell_bytes c @ rest) = ptoks (cell_tokens c) (Tokens rd stk None rest)"
proof -
  let ?c = "xnm ''c''" and ?v = "xnm ''v''"
  from assms have V: "valid_text (c_V c)" by (simp add: cell_ok_def)
  have e: "Tokens rd (?c # stk) None (''</c>'' @ rest) = ptok (EndElement ?c) (Tokens rd stk None rest)"
    by (rule Tokens_end) (rule rawToken_end)
  have body: "Tokens rd (?c # stk) None
        ((if c_V c \<noteq> [] then ''<v>'' @ EscapeText (c_V c) @ ''</v>'' else []) @ ''</c>'' @ rest)
      = ptoks ((if c_V c \<noteq> [] then [StartElement ?v [], CharData (c_V c), EndElement ?v] else [])
               @ [EndElement ?c]) (Tokens rd stk None rest)"
  proof (cases "c_V c = []")
    case True
    with e show ?thesis by simp
  next
    case False
    have 1: "Tokens rd (?c # stk) None (''<v>'' @ EscapeText (c_V c) @ ''</v>'' @ ''</c>'' @ rest)
        = ptok (StartElement ?v [])
            (Tokens rd (?v # ?c # stk) None (EscapeText (c_V c) @ ''</v>'' @ ''</c>'' @ rest))"
      by (rule Tokens_start) (rule rawToken_v_start)
    have 2: "Tokens rd (?v # ?c # stk) None (EscapeText (c_V c) @ ''</v>'' @ ''</c>'' @ rest)
        = ptok (CharData (c_V c)) (Tokens rd (?v # ?c # stk) None (''</v>'' @ ''</c>'' @ rest))"
      using rawToken_chardata [OF V False, of rd "''/v>'' @ ''</c>'' @ rest"]
      by (intro Tokens_chardata) simp
    have 3: "Tokens rd (?v # ?c # stk) None (''</v>'' @ ''</c>'' @ rest)
        = ptok (EndElement ?v) (Tokens rd (?c # stk) None (''</c>'' @ rest))"
      by (rule Tokens_end) (rule rawToken_end)
    from False 1 2 3 e show ?thesis by simp
  qed
  have "Tokens rd stk None (''<c'' @ attr_bytes c @
        (if c_V c \<noteq> [] then ''<v>'' @ EscapeText (c_V c) @ ''</v>'' else []) @ ''</c>'' @ rest)
      = ptok (StartElement ?c (cell_attrs c)) (Tokens rd (?c # stk) None
        ((if c_V c \<noteq> [] then ''<v>'' @ EscapeText (c_V c) @ ''</v>'' else []) @ ''</c>'' @ rest))"
    by (rule Tokens_start) (rule rawToken_cell_start [OF assms])
  with body show ?thesis
    by (simp add: cell_bytes_split cell_tokens_def split del: if_split)
qed

lemma Tokens_cells:
  "list_all cell_ok cs \<Longrightarrow>
     Tokens rd stk None (concat (map cell_bytes cs) @ rest)
       = ptoks (concat (map cell_tokens cs)) (Tokens rd stk None rest)"
  by (induction cs) (simp_all add: Tokens_cell)

lemma Tokens_row:
  assumes "list_all cell_ok cs"
  shows "Tokens rd stk None (row_open row @ concat (map cell_bytes cs) @ ''</row>'' @ rest)
       = ptoks (StartElement (xnm ''row'') [xat ''r'' (Itoa row)] # concat (map cell_tokens cs)
                @ [EndElement (xnm ''row'')]) (Tokens rd stk None rest)"
proof -
  have 1: "Tokens rd stk None (row_open row @ concat (map cell_bytes cs) @ ''</row>'' @ rest)
      = ptok (StartElement (xnm ''row'') [xat ''r'' (Itoa row)])
          (Tokens rd (xnm ''row'' # stk) None (concat (map cell_bytes cs) @ ''</row>'' @ rest))"
    by (rule Tokens_start) (rule rawToken_row_start)
  have 2: "Tokens rd (xnm ''row'' # stk) None (''</row>'' @ rest)
      = ptok (EndElement (xnm ''row'')) (Tokens rd stk None rest)"
    by (rule Tokens_end) (rule rawToken_end)
  from 1 2 Tokens_cells [OF assms, of rd "xnm ''row'' # stk" "''</row>'' @ rest"]
  show ?thesis by simp
qed

lemma hex_val_digit: "d < 10 \<Longrightarrow> hex_val (digit_char d) = d"
proof -
  assume "d < 10"
  then have "d \<in> {0, 1, 2, 3, 4, 5, 6, 7, 8, 9}" by auto
  then show ?thesis by (auto simp: hex_val_def digit_char_def byte_in_def)
qed

lemma num_val_snoc: "num_val b (ds @ [c]) = num_val b ds * b + hex_val c"
  by (simp add: num_val_def)

lemma num_val_nat_dec: "num_val 10 (nat_dec n) = n"
proof (induction n rule: nat_dec.induct)
  case (1 n)
  show ?case
  proof (cases "n < 10")
    case True
    then show ?thesis by (subst nat_dec.simps) (simp add: num_val_def hex_val_digit)
  next
    case False
    with 1 have "num_val 10 (nat_dec (n div 10)) = n div 10" by simp
    with False show ?thesis
      by (subst nat_dec.simps) (simp add: num_val_snoc hex_val_digit)
  qed
qed

lemma nat_dec_hd: "hd (nat_dec n) \<noteq> CHR ''-'' \<and> hd (nat_dec n) \<noteq> CHR ''+''"
proof -
  from nat_dec_digits [of n] obtain d ds where "nat_dec n = d # ds" "byte_in 0x30 0x39 d"
    by (cases "nat_dec n") auto
  then show ?thesis by (auto simp: byte_in_def)
qed

lemma Atoi_Itoa:
  assumes "- (2 ^ 63) \<le> i" "i < 2 ^ 63"
  shows "Atoi (Itoa i) = i \<and> is_int_lit (Itoa i)"
proof (cases "i < 0")
  case True
  then have I: "Itoa i = CHR ''-'' # nat_dec (nat (- i))" by (simp add: Itoa_def)
  from assms True have "nat (- i) \<le> nat (2 ^ 63)" by (intro nat_mono) simp
  then have "nat (- i) \<le> 2 ^ 63" by simp
  with nat_dec_digits [of "nat (- i)"] True show ?thesis
    unfolding I by (simp add: Atoi_def is_int_lit_def num_val_nat_dec)
next
  case False
  then have I: "Itoa i = nat_dec (nat i)" by (simp add: Itoa_def)
  from assms False have "nat i < nat (2 ^ 63)" by (subst nat_less_eq_zless) simp_all
  then have "nat i < 2 ^ 63" by simp
  with nat_dec_digits [of "nat i"] nat_dec_hd [of "nat i"] False show ?thesis
    unfolding I by (simp add: Atoi_def is_int_lit_def num_val_nat_dec)
qed









lemma set_R [simp]: "c_R (set_TV c tv) = c_R c" "c_R (set_TVX c tvx) = c_R c"
  by (simp_all add: set_TV_def set_TVX_def)



section \<open>The partial scanner\<close>

lemma int_wrap_id: "- (2 ^ 63) \<le> x \<Longrightarrow> x < 2 ^ 63 \<Longrightarrow> int_wrap x = x"
  by (simp add: int_wrap_def)

lemma make_len:
  assumes "hcol \<le> vcol + 1" "vcol - hcol + 1 < 2 ^ 63"
  shows "int_wrap (int_wrap (vcol - hcol) + 1) = vcol - hcol + 1"
proof -
  have "int_wrap (vcol - hcol) = vcol - hcol" using assms by (intro int_wrap_id) simp_all
  moreover have "int_wrap (vcol - hcol + 1) = vcol - hcol + 1" using assms by (intro int_wrap_id) simp_all
  ultimately show ?thesis by simp
qed




text \<open>Running the scanner on a buffer held in memory, and on the example header.\<close>

lemma getRowValues_memory:
  assumes "tmp (rawData sw) = None" and "Tokens io_EOF [] None (buf (rawData sw)) = (ts, e)"
    and "hcol \<le> vcol + 1" "vcol - hcol + 1 < 2 ^ 63"
  shows "getRowValues X R hrow hcol vcol sw
     = (scan_rows X hrow hcol vcol (replicate (nat (vcol - hcol + 1)) []) ts e, sw)"
  using assms by (simp add: getRowValues_def make_len bw_Reader_def)

lemma Tokens_sheetData:
  "Tokens rd [] None (''<sheetData>'' @ rest)
     = ptoks [StartElement (xnm ''sheetData'') []] (Tokens rd [xnm ''sheetData''] None rest)"
proof -
  have "rawToken rd (''<sheetData>'' @ rest) = Inr (StartElement (xnm ''sheetData'') [], rest, None)"
    by (simp add: rawToken_def name_eval xnm_def attrs_go.simps(2) is_space_def)
  from Tokens_start [OF this] show ?thesis by simp
qed


lemma ex_cell_ok: "cell_ok ex_cell"
  by (simp add: cell_ok_def ex_cell_def xlsxC_zero_def plain_char_def byte_in_def valid_text_plain)

lemma ex_cell_bytes: "cell_bytes ex_cell = ''<c r=\"A1\" t=\"str\"><v>Name</v></c>''"
  by (simp add: cell_bytes_def ex_cell_def xlsxC_zero_def EscapeText.simps escRune_def
      isInCharacterRange_def)

lemma row_open_1: "row_open 1 = ''<row r=\"1\">''"
  by (simp add: row_open_def Itoa_def nat_dec.simps digit_char_def)

lemma Itoa_1: "Itoa 1 = ''1''"
  by (simp add: Itoa_def nat_dec.simps digit_char_def)

lemma ex_header_tokens:
  "Tokens io_EOF [] None ''<sheetData><row r=\"1\"><c r=\"A1\" t=\"str\"><v>Name</v></c></row>''
     = ([StartElement (xnm ''sheetData'') [],
         StartElement (xnm ''row'') [xat ''r'' ''1''],
         StartElement (xnm ''c'') [xat ''r'' ''A1'', xat ''t'' ''str''],
         StartElement (xnm ''v'') [], CharData ''Name'', EndElement (xnm ''v''),
         EndElement (xnm ''c''), EndElement (xnm ''row'')],
        SyntaxError ''unexpected EOF'')"
proof -
  have l: "list_all cell_ok [ex_cell]" by (simp add: ex_cell_ok)
  have s: "''<sheetData><row r=\"1\"><c r=\"A1\" t=\"str\"><v>Name</v></c></row>''
      = ''<sheetData>'' @ row_open 1 @ concat (map cell_bytes [ex_cell]) @ ''</row>'' @ []"
    by (simp add: row_open_1 ex_cell_bytes)
  have t: "Tokens io_EOF [xnm ''sheetData''] None [] = ([], SyntaxError ''unexpected EOF'')"
    by (simp add: Tokens.simps(2))
  have "Tokens io_EOF [] None (''<sheetData>'' @ row_open 1 @ concat (map cell_bytes [ex_cell]) @ ''</row>'' @ [])
     = ptoks [StartElement (xnm ''sheetData'') []]
         (ptoks (StartElement (xnm ''row'') [xat ''r'' (Itoa 1)] # concat (map cell_tokens [ex_cell])
                  @ [EndElement (xnm ''row'')]) ([], SyntaxError ''unexpected EOF''))"
    by (simp only: Tokens_sheetData Tokens_row [OF l] t)
  also have "\<dots> = ([StartElement (xnm ''sheetData'') [],
         StartElement (xnm ''row'') [xat ''r'' ''1''],
         StartElement (xnm ''c'') [xat ''r'' ''A1'', xat ''t'' ''str''],
         StartElement (xnm ''v'') [], CharData ''Name'', EndElement (xnm ''v''),
         EndElement (xnm ''c''), EndElement (xnm ''row'')],
        SyntaxError ''unexpected EOF'')"
    by (simp add: Itoa_1 cell_tokens_def cell_attrs_def ex_cell_def xlsxC_zero_def ptok_def)
  finally show ?thesis unfolding s [symmetric] .
qed

lemma Atoi_1: "Atoi ''1'' = 1" "is_int_lit ''1''"
  using Atoi_Itoa [of 1] by (simp_all add: Itoa_1)

lemma ex_header_scan:
  "scan_rows ex_encoders 1 1 2 [[], []]
       [StartElement (xnm ''sheetData'') [],
         StartElement (xnm ''row'') [xat ''r'' ''1''],
         StartElement (xnm ''c'') [xat ''r'' ''A1'', xat ''t'' ''str''],
         StartElement (xnm ''v'') [], CharData ''Name'', EndElement (xnm ''v''),
         EndElement (xnm ''c''), EndElement (xnm ''row'')] e
     = Inr [''Name'', []]"
  by (simp add: getRowElement_def xnm_def xat_def Atoi_1 DecodeElement_row_def attr_vals_def
      cell_of_attrs_def xlsxC_zero_def ex_encoders_def ex_A1 int_wrap_def)





section \<open>Writing a row and reading it back\<close>















section \<open>Table registration\<close>









lemma bw_Reader_again:
  "bw_Reader R bw = (Inr r, bw1) \<Longrightarrow> bw_Reader R bw1 = (Inr r, bw1)"
  by (auto simp: bw_Reader_def bw_Flush_def Buffer_WriteTo_def
      split: option.splits prod.splits if_splits)

lemma getRowValues_again:
  assumes "getRowValues X R hrow hcol vcol sw = (Inr hs, sw1)" and "rawData sw' = rawData sw1"
  shows "getRowValues X R hrow hcol vcol sw' = (Inr hs, sw')"
proof -
  let ?n = "int_wrap (int_wrap (vcol - hcol) + 1)"
  from assms(1) have n: "\<not> ?n < 0"
    by (auto simp: getRowValues_def Let_def)
  from assms(1) n obtain bs rd bw where
    r: "bw_Reader R (rawData sw) = (Inr (bs, rd), bw)" and s: "sw1 = sw\<lparr>rawData := bw\<rparr>"
    and h: "scan_rows X hrow hcol vcol (replicate (nat ?n) []) (fst (Tokens rd [] None bs))
              (snd (Tokens rd [] None bs)) = Inr hs"
    by (auto simp: getRowValues_def Let_def split: prod.splits sum.splits)
  from s assms(2) have b: "rawData sw' = bw" by simp
  from bw_Reader_again [OF r] have "bw_Reader R (rawData sw') = (Inr (bs, rd), rawData sw')"
    unfolding b .
  with n h show ?thesis
    by (auto simp: getRowValues_def Let_def split: prod.splits)
qed

lemma registerTable_success:
  assumes "registerTable X P R fs cs sw = (None, sw2)"
  shows "\<exists>ref hs sw1. coordinatesToAreaRef P cs = Inr ref
     \<and> getRowValues X R (cs ! 1) (cs ! 0) (cs ! 2) sw = (Inr hs, sw1) \<and> rawData sw2 = rawData sw1"
  using assms
  by (auto simp: registerTable_def Let_def split: sum.splits prod.splits)

lemma registerTable_scan:
  assumes "coordinatesToAreaRef P cs = Inr ref"
    and "getRowValues X R (cs ! 1) (cs ! 0) (cs ! 2) sw = (Inr hs, sw1)"
  shows "fst (registerTable X P R fs cs sw) = None
     \<and> (\<exists>rID. tableParts (snd (registerTable X P R fs cs sw)) = tableParts_of rID)"
  using assms
  by (auto simp: registerTable_def Let_def split: sum.splits prod.splits)

text \<open>
  Claim C4, amended. \<open>AddTable\<close> does not look at whether a table has been registered: after
  a call that returned nil, a second call with the same arguments returns nil again, and
  \<open>tableParts\<close> then holds the markup of a single table part.
\<close>

theorem AddTable_second_call:
  assumes "AddTable X P R hcell vcell format sw = (None, sw1)"
  shows "fst (AddTable X P R hcell vcell format sw1) = None
     \<and> (\<exists>rID. tableParts (snd (AddTable X P R hcell vcell format sw1)) = tableParts_of rID)"
proof -
  from assms obtain fs cs where p: "parseFormatTableSet P format = Inr fs"
    and c: "tableCoordinates X hcell vcell = Inr cs"
    and r: "registerTable X P R fs cs sw = (None, sw1)"
    by (auto simp: AddTable_def split: sum.splits)
  from registerTable_success [OF r] obtain ref hs sw0 where
    a: "coordinatesToAreaRef P cs = Inr ref"
    and g: "getRowValues X R (cs ! 1) (cs ! 0) (cs ! 2) sw = (Inr hs, sw0)"
    and d: "rawData sw1 = rawData sw0" by blast
  from registerTable_scan [OF a getRowValues_again [OF g d]] p c show ?thesis
    by (simp add: AddTable_def)
qed

lemma ex_B2: "ex_CellNameToCoordinates ''B2'' = Inr (2, 2)"
  by (simp add: ex_CellNameToCoordinates_def is_alpha_def byte_in_def is_digit_def dec_val_def
      col_num_def letter_val_def)

lemma ex_name_B2: "ex_CoordinatesToCellName 2 2 = Inr ''B2''"
  by (simp add: ex_CoordinatesToCellName_def col_name.simps Itoa_def nat_dec.simps digit_char_def)

lemma ex_A1_B2: "tableCoordinates ex_encoders ''A1'' ''B2'' = Inr [1, 1, 2, 2]"
  by (simp add: tableCoordinates_def areaRangeToCoordinates_def sortCoordinates_def Let_def
      ex_encoders_def ex_A1 ex_B2)

lemma Itoa_2: "Itoa 2 = ''2''"
  by (simp add: Itoa_def nat_dec.simps digit_char_def)

text \<open>The header row of the examples, scanned in a session whose buffer is in memory.\<close>

lemma ex_header_read:
  assumes "rawData sw = \<lparr>tmp = None, buf = ''<sheetData><row r=\"1\"><c r=\"A1\" t=\"str\"><v>Name</v></c></row>''\<rparr>"
  shows "getRowValues ex_encoders os_ok 1 1 2 sw = (Inr [''Name'', []], sw)"
proof -
  have m: "tmp (rawData sw) = None" using assms by simp
  have t: "Tokens io_EOF [] None (buf (rawData sw))
     = ([StartElement (xnm ''sheetData'') [],
         StartElement (xnm ''row'') [xat ''r'' ''1''],
         StartElement (xnm ''c'') [xat ''r'' ''A1'', xat ''t'' ''str''],
         StartElement (xnm ''v'') [], CharData ''Name'', EndElement (xnm ''v''),
         EndElement (xnm ''c''), EndElement (xnm ''row'')],
        SyntaxError ''unexpected EOF'')"
    using ex_header_tokens assms by simp
  have r: "replicate (nat (2 - 1 + 1)) ([]::string) = [[], []]"
    by (simp add: numeral_2_eq_2)
  have g: "getRowValues ex_encoders os_ok 1 1 2 sw
     = (scan_rows ex_encoders 1 1 2 (replicate (nat (2 - 1 + 1)) [])
         [StartElement (xnm ''sheetData'') [],
         StartElement (xnm ''row'') [xat ''r'' ''1''],
         StartElement (xnm ''c'') [xat ''r'' ''A1'', xat ''t'' ''str''],
         StartElement (xnm ''v'') [], CharData ''Name'', EndElement (xnm ''v''),
         EndElement (xnm ''c''), EndElement (xnm ''row'')]
        (SyntaxError ''unexpected EOF''), sw)"
    by (rule getRowValues_memory [OF m t]) simp_all
  show ?thesis unfolding g r ex_header_scan ..
qed

lemma ex_register:
  assumes b: "rawData sw = \<lparr>tmp = None, buf = ''<sheetData><row r=\"1\"><c r=\"A1\" t=\"str\"><v>Name</v></c></row>''\<rparr>"
    and k: "int (pkg (sw_File sw)) + 1 < 2 ^ 63"
  shows "fst (AddTable ex_encoders ex_packaging os_ok ''A1'' ''B2'' [] sw) = None
     \<and> tableParts (snd (AddTable ex_encoders ex_packaging os_ok ''A1'' ''B2'' [] sw))
         = tableParts_of (int (pkg (sw_File sw)) + 1)
     \<and> rawData (snd (AddTable ex_encoders ex_packaging os_ok ''A1'' ''B2'' [] sw)) = rawData sw
     \<and> pkg (sw_File (snd (AddTable ex_encoders ex_packaging os_ok ''A1'' ''B2'' [] sw)))
         = Suc (pkg (sw_File sw))"
proof -
  have w: "int_wrap (int (pkg (sw_File sw)) + 1) = int (pkg (sw_File sw)) + 1"
    using k by (intro int_wrap_id) simp_all
  have a: "coordinatesToAreaRef ex_packaging [1, 1, 2, 2] = Inr ''A1:B2''"
    by (simp add: ex_packaging_def ex_names ex_name_B2)
  have c: "countTables ex_packaging (sw_File sw) = int (pkg (sw_File sw))"
    by (simp add: ex_packaging_def)
  have r: "registerTable ex_encoders ex_packaging os_ok fs [1, 1, 2, 2] sw
      = (None, sw\<lparr>sw_File := saveFileList ex_packaging
                     (addContentTypePart ex_packaging (sw_File sw) (int (pkg (sw_File sw)) + 1) ''table'')
                     (''xl/tables/table'' @ Itoa (int (pkg (sw_File sw)) + 1) @ ''.xml'')
                     (xml_Marshal ex_packaging
                        \<lparr>tb_XMLNS = NameSpaceSpreadSheet ex_packaging,
                         tb_ID = int (pkg (sw_File sw)) + 1,
                         tb_Name = (if TableName fs = [] then ''Table'' @ Itoa (int (pkg (sw_File sw)) + 1)
                                    else TableName fs),
                         tb_DisplayName = (if TableName fs = [] then ''Table'' @ Itoa (int (pkg (sw_File sw)) + 1)
                                    else TableName fs),
                         tb_Ref = ''A1:B2'',
                         tb_Columns = [\<lparr>tc_ID = 1, tc_Name = ''Name''\<rparr>, \<lparr>tc_ID = 2, tc_Name = []\<rparr>],
                         tb_Style = fs\<rparr>),
                  tableParts := tableParts_of (int (pkg (sw_File sw)) + 1)\<rparr>)" for fs
    unfolding registerTable_def a
    by (simp add: ex_header_read [OF b] c w Let_def) (simp add: ex_packaging_def)
  have p: "parseFormatTableSet ex_packaging [] = Inr ex_format"
    by (simp add: ex_packaging_def ex_format_def)
  show ?thesis
    by (simp add: AddTable_def p ex_A1_B2 r) (simp add: ex_packaging_def)
qed

theorem AddTable_second_call_witness:
  "fst (AddTable ex_encoders ex_packaging os_ok ''A1'' ''B2'' [] (ex_nsw ex_header)) = None
   \<and> fst (AddTable ex_encoders ex_packaging os_ok ''A1'' ''B2'' []
            (snd (AddTable ex_encoders ex_packaging os_ok ''A1'' ''B2'' [] (ex_nsw ex_header)))) = None"
proof -
  let ?sw = "ex_nsw ex_header"
  have b: "rawData ?sw = \<lparr>tmp = None, buf = ''<sheetData><row r=\"1\"><c r=\"A1\" t=\"str\"><v>Name</v></c></row>''\<rparr>"
    and k: "int (pkg (sw_File ?sw)) + 1 < 2 ^ 63"
    by (simp_all add: ex_nsw_def ex_header_def)
  from ex_register [OF b k]
  have f1: "fst (AddTable ex_encoders ex_packaging os_ok ''A1'' ''B2'' [] ?sw) = None"
    by simp
  then have f: "AddTable ex_encoders ex_packaging os_ok ''A1'' ''B2'' [] ?sw
     = (None, snd (AddTable ex_encoders ex_packaging os_ok ''A1'' ''B2'' [] ?sw))"
    by (simp add: prod_eq_iff)
  from AddTable_second_call [OF f] have
    "fst (AddTable ex_encoders ex_packaging os_ok ''A1'' ''B2'' []
            (snd (AddTable ex_encoders ex_packaging os_ok ''A1'' ''B2'' [] ?sw))) = None"
    by (rule conjunct1)
  with f1 show ?thesis by (rule conjI)
qed

text \<open>
  Two registrations of A1:B2 in a session that has written the header row: both return
  nil, and the table part of the second replaces that of the first.
\<close>

theorem AddTable_twice_counterexample:
  "fst (AddTable ex_encoders ex_packaging os_ok ''A1'' ''B2'' [] (ex_nsw ex_header)) = None
   \<and> tableParts (snd (AddTable ex_encoders ex_packaging os_ok ''A1'' ''B2'' [] (ex_nsw ex_header)))
       = ''<tableParts count=\"1\"><tablePart r:id=\"rId1\"></tablePart></tableParts>''
   \<and> fst (AddTable ex_encoders ex_packaging os_ok ''A1'' ''B2'' []
            (snd (AddTable ex_encoders ex_packaging os_ok ''A1'' ''B2'' [] (ex_nsw ex_header)))) = None
   \<and> tableParts (snd (AddTable ex_encoders ex_packaging os_ok ''A1'' ''B2'' []
            (snd (AddTable ex_encoders ex_packaging os_ok ''A1'' ''B2'' [] (ex_nsw ex_header)))))
       = ''<tableParts count=\"1\"><tablePart r:id=\"rId2\"></tablePart></tableParts>''"
proof -
  let ?sw = "ex_nsw ex_header"
  let ?sw1 = "snd (AddTable ex_encoders ex_packaging os_ok ''A1'' ''B2'' [] ?sw)"
  have b: "rawData ?sw = \<lparr>tmp = None, buf = ''<sheetData><row r=\"1\"><c r=\"A1\" t=\"str\"><v>Name</v></c></row>''\<rparr>"
    and k: "pkg (sw_File ?sw) = 0"
    by (simp_all add: ex_nsw_def ex_header_def)
  from k have k': "int (pkg (sw_File ?sw)) + 1 < 2 ^ 63" by simp
  note 1 = ex_register [OF b k']
  from 1 b k have b1: "rawData ?sw1 = \<lparr>tmp = None, buf = ''<sheetData><row r=\"1\"><c r=\"A1\" t=\"str\"><v>Name</v></c></row>''\<rparr>"
    and k1: "pkg (sw_File ?sw1) = 1" by simp_all
  from k1 have k1': "int (pkg (sw_File ?sw1)) + 1 < 2 ^ 63" by simp
  note 2 = ex_register [OF b1 k1']
  from 1 2 k k1 show ?thesis
    by (simp add: tableParts_of_def Itoa_1 Itoa_2)
qed

section \<open>After finalizing\<close>












end
